theory Spec2Isabelle
  imports Main "HOL-Library.Word" "HOL-Library.Sublist" "HOL-Library.AList" "HOL-Library.Multiset"
begin

section \<open>C strings and fixed-size key buffers\<close>

text \<open>
  The model follows \<^verbatim>\<open>cd_dbm/cd_access.c\<close>. A \<^verbatim>\<open>const char *\<close> argument is a
  \<open>string option\<close>: \<open>None\<close> is the null pointer, \<open>Some bs\<close> points at the bytes \<open>bs\<close>,
  of which the C library reads those before the first zero byte (the end of the list
  stands for the terminator when there is none in it). Reading through a null pointer and
  writing past the end of a local buffer are undefined in C; the model returns them as
  faults.
\<close>

datatype fault = Null_dereference | Buffer_overflow

abbreviation NUL :: char where
  "NUL \<equiv> CHR 0x00"

definition cstr :: "string \<Rightarrow> string" where
  "cstr bs = takeWhile (\<lambda>c. c \<noteq> NUL) bs"

definition strlen :: "string \<Rightarrow> nat" where
  "strlen bs = length (cstr bs)"

text \<open>
  \<^verbatim>\<open>strstr(haystack, needle)\<close>: the part of the haystack that starts at the first occurrence
  of the needle, \<open>None\<close> for the null pointer it returns when there is no occurrence.
\<close>

fun strstr_from :: "string \<Rightarrow> string \<Rightarrow> string option" where
  "strstr_from [] n = (if n = [] then Some [] else None)"
| "strstr_from (c # cs) n = (if prefix n (c # cs) then Some (c # cs) else strstr_from cs n)"

definition strstr :: "string \<Rightarrow> string \<Rightarrow> string option" where
  "strstr haystack needle = strstr_from (cstr haystack) (cstr needle)"

text \<open>
  \<^verbatim>\<open>memset(&buf, '\0', sizeof(buf))\<close> followed by \<^verbatim>\<open>strcpy\<close> or \<^verbatim>\<open>sprintf\<close> of a text into
  \<open>buf\<close>: the text and its terminating zero byte are written from the start of the buffer,
  which holds \<open>n\<close> bytes; \<open>padded n text\<close> is the buffer afterwards.
\<close>

definition padded :: "nat \<Rightarrow> string \<Rightarrow> string" where
  "padded n text = text @ replicate (n - length text) NUL"

definition fill_buffer :: "nat \<Rightarrow> string \<Rightarrow> fault + string" where
  "fill_buffer n text =
     (if length text + 1 \<le> n then Inr (padded n text) else Inl Buffer_overflow)"

text \<open>The conversion \<^verbatim>\<open>%d\<close> of \<^verbatim>\<open>sprintf\<close>, for a 32-bit \<^verbatim>\<open>int\<close>.\<close>

definition digit :: "nat \<Rightarrow> char" where
  "digit d = ''0123456789'' ! (d mod 10)"

fun dec_nat :: "nat \<Rightarrow> string" where
  "dec_nat n = (if n < 10 then [digit n] else dec_nat (n div 10) @ [digit (n mod 10)])"

declare dec_nat.simps [simp del]

definition dec_int :: "int \<Rightarrow> string" where
  "dec_int i = (if i < 0 then CHR ''-'' # dec_nat (nat (- i)) else dec_nat (nat i))"

definition format_s_d :: "string \<Rightarrow> 32 word \<Rightarrow> string" where
  "format_s_d s d = cstr s @ '' '' @ dec_int (sint d)"

text \<open>
  The two key buffers. \<open>CAT_CAT_LEN\<close> comes from \<^verbatim>\<open>cd_data.h\<close> and is a parameter of the
  model. \<open>catalog_key\<close> is \<^verbatim>\<open>char key[CAT_CAT_LEN + 1]\<close> after \<^verbatim>\<open>memset\<close> and \<^verbatim>\<open>strcpy\<close>;
  \<open>track_key\<close> is \<^verbatim>\<open>char key[CAT_CAT_LEN + 10]\<close> after \<^verbatim>\<open>memset\<close> and
  \<^verbatim>\<open>sprintf(key, "%s %d", catalog, track_no)\<close>. The datum handed to the engine has
  \<^verbatim>\<open>dsize = sizeof(key)\<close>: it is the whole buffer.
\<close>

definition catalog_key :: "nat \<Rightarrow> string \<Rightarrow> fault + string" where
  "catalog_key CAT_CAT_LEN catalog = fill_buffer (CAT_CAT_LEN + 1) (cstr catalog)"

definition track_key :: "nat \<Rightarrow> string \<Rightarrow> 32 word \<Rightarrow> fault + string" where
  "track_key CAT_CAT_LEN catalog track_no =
     fill_buffer (CAT_CAT_LEN + 10) (format_s_d catalog track_no)"

section \<open>Records\<close>

text \<open>
  \<^verbatim>\<open>cdc_entry\<close> and \<^verbatim>\<open>cdt_entry\<close> are declared in \<^verbatim>\<open>cd_data.h\<close>; the functions read the
  members \<^verbatim>\<open>catalog\<close> and \<^verbatim>\<open>track_no\<close> and copy the others. A \<^verbatim>\<open>char\<close> array member is
  the list of its bytes, bytes past the end of the list being zero; \<open>cdc_rest\<close> and
  \<open>cdt_rest\<close> are the bytes of the members that are only copied. The members \<^verbatim>\<open>catalog\<close>
  and \<^verbatim>\<open>track_no\<close> of \<^verbatim>\<open>cdt_entry\<close> are \<open>cdt_catalog\<close> and \<open>cdt_track_no\<close> here, field
  names being global.
\<close>

record cdc_entry =
  cdc_catalog :: string
  cdc_rest :: string

record cdt_entry =
  cdt_catalog :: string
  cdt_track_no :: "32 word"
  cdt_rest :: string

text \<open>\<^verbatim>\<open>memset(&entry_to_return, '\0', sizeof(entry_to_return))\<close>\<close>

definition empty_cdc_entry :: cdc_entry where
  "empty_cdc_entry = \<lparr>cdc_catalog = [], cdc_rest = []\<rparr>"

definition empty_cdt_entry :: cdt_entry where
  "empty_cdt_entry = \<lparr>cdt_catalog = [], cdt_track_no = 0, cdt_rest = []\<rparr>"

section \<open>The dbm engine\<close>

text \<open>
  The engine is a library outside the repository. A table is the list of its pairs of key
  and value, in the order in which the engine iterates over them; the value stored is the
  record whose bytes the datum holds. A key datum is \<open>None\<close> when its \<^verbatim>\<open>dptr\<close> is null.
  An open handle holds the position of the iteration: \<open>None\<close> before \<^verbatim>\<open>dbm_firstkey\<close> and
  after the last key, \<open>Some i\<close> when the key at index \<open>i\<close> was the last one returned.
  \<^verbatim>\<open>dbm_store\<close> is the call with \<^verbatim>\<open>DBM_REPLACE\<close>; \<^verbatim>\<open>dbm_store\<close> and \<^verbatim>\<open>dbm_delete\<close> return
  the engine's result and the new table.
\<close>

type_synonym 'v table = "(string \<times> 'v) list"
type_synonym datum = "string option"

record DBM =
  cursor :: "nat option"

definition dbm_open :: "bool \<Rightarrow> DBM option" where
  "dbm_open opens = (if opens then Some \<lparr>cursor = None\<rparr> else None)"

definition dbm_fetch :: "'v table \<Rightarrow> string \<Rightarrow> 'v option" where
  "dbm_fetch tbl key = map_of tbl key"

definition dbm_store :: "'v table \<Rightarrow> string \<Rightarrow> 'v \<Rightarrow> int \<times> 'v table" where
  "dbm_store tbl key content = (0, AList.update key content tbl)"

definition dbm_delete :: "'v table \<Rightarrow> string \<Rightarrow> int \<times> 'v table" where
  "dbm_delete tbl key =
     (if map_of tbl key = None then (- 1, tbl) else (0, AList.delete key tbl))"

definition key_at :: "'v table \<Rightarrow> nat \<Rightarrow> datum \<times> DBM" where
  "key_at tbl i =
     (if i < length tbl then (Some (fst (tbl ! i)), \<lparr>cursor = Some i\<rparr>)
      else (None, \<lparr>cursor = None\<rparr>))"

definition dbm_firstkey :: "'v table \<Rightarrow> DBM \<Rightarrow> datum \<times> DBM" where
  "dbm_firstkey tbl db = key_at tbl 0"

definition dbm_nextkey :: "'v table \<Rightarrow> DBM \<Rightarrow> datum \<times> DBM" where
  "dbm_nextkey tbl db =
     (case cursor db of None \<Rightarrow> (None, \<lparr>cursor = None\<rparr>) | Some i \<Rightarrow> key_at tbl (Suc i))"

section \<open>The state of the program\<close>

text \<open>
  The two file-scope handles (\<open>None\<close> is \<^verbatim>\<open>NULL\<close>), the contents of the two databases on
  disk (the files \<^verbatim>\<open>cdc_data.dir\<close>, \<^verbatim>\<open>cdc_data.pag\<close> and \<^verbatim>\<open>cdt_data.dir\<close>, \<^verbatim>\<open>cdt_data.pag\<close>;
  an absent database is the empty table, since \<^verbatim>\<open>dbm_open\<close> is called with \<^verbatim>\<open>O_CREAT\<close>), and
  the two static locals of \<^verbatim>\<open>search_cdc_entry\<close>. The file system is part of the state as
  far as \<^verbatim>\<open>unlink\<close> meets it: \<open>cdc_files_stay\<close> holds when it refuses to remove the two
  files of \<^verbatim>\<open>cdc_data\<close> (in a directory the process may not write, for one), so that both
  calls fail and the files stay as they are; \<open>cdt_files_stay\<close> likewise for \<^verbatim>\<open>cdt_data\<close>. A
  pair of which one file goes and the other stays is left out of the model.
\<close>

record cd_state =
  cdc_dbm_ptr :: "DBM option"
  cdt_dbm_ptr :: "DBM option"
  cdc_data :: "cdc_entry table"
  cdt_data :: "cdt_entry table"
  local_first_call :: int
  local_key_datum :: datum
  cdc_files_stay :: bool
  cdt_files_stay :: bool

text \<open>
  The state at process start: no handle, \<^verbatim>\<open>local_first_call = 1\<close>; here with files that
  \<^verbatim>\<open>unlink\<close> can remove.
\<close>

definition initial_state :: "cdc_entry table \<Rightarrow> cdt_entry table \<Rightarrow> cd_state" where
  "initial_state cdc cdt =
     \<lparr>cdc_dbm_ptr = None, cdt_dbm_ptr = None, cdc_data = cdc, cdt_data = cdt,
      local_first_call = 1, local_key_datum = None,
      cdc_files_stay = False, cdt_files_stay = False\<rparr>"

text \<open>
  \<^verbatim>\<open>database_initialize\<close>. \<open>cdc_opens\<close> and \<open>cdt_opens\<close> say whether the environment lets
  the two calls of \<^verbatim>\<open>dbm_open\<close> succeed. \<^verbatim>\<open>dbm_close\<close> of the old handles changes nothing
  the model keeps: both handles are assigned afresh below. \<open>unlink_files\<close> is the two
  calls of \<^verbatim>\<open>unlink\<close> on the \<^verbatim>\<open>.pag\<close> and the \<^verbatim>\<open>.dir\<close> file of one database, whose results
  the code discards: the database is gone when they remove the files, and is what it was
  when they fail.
\<close>

definition unlink_files :: "bool \<Rightarrow> 'v table \<Rightarrow> 'v table" where
  "unlink_files files_stay tbl = (if files_stay then tbl else [])"

definition database_initialize :: "int \<Rightarrow> bool \<Rightarrow> bool \<Rightarrow> cd_state \<Rightarrow> int \<times> cd_state" where
  "database_initialize new_database cdc_opens cdt_opens s =
     (let s1 = (if new_database \<noteq> 0
                then s\<lparr>cdc_data := unlink_files (cdc_files_stay s) (cdc_data s),
                       cdt_data := unlink_files (cdt_files_stay s) (cdt_data s)\<rparr>
                else s);
          s2 = s1\<lparr>cdc_dbm_ptr := dbm_open cdc_opens\<rparr>;
          s3 = s2\<lparr>cdt_dbm_ptr := dbm_open cdt_opens\<rparr>
      in if cdc_dbm_ptr s3 = None \<or> cdt_dbm_ptr s3 = None
         then (0, s3\<lparr>cdc_dbm_ptr := None, cdt_dbm_ptr := None\<rparr>)
         else (1, s3))"

definition database_close :: "cd_state \<Rightarrow> cd_state" where
  "database_close s = s\<lparr>cdc_dbm_ptr := None, cdt_dbm_ptr := None\<rparr>"

section \<open>Lookup, insertion and deletion\<close>

definition get_cdc_entry :: "nat \<Rightarrow> cd_state \<Rightarrow> string option \<Rightarrow> fault + cdc_entry" where
  "get_cdc_entry CAT_CAT_LEN s cd_catalog_ptr =
     (let entry_to_return = empty_cdc_entry in
      if cdc_dbm_ptr s = None \<or> cdt_dbm_ptr s = None then Inr entry_to_return
      else case cd_catalog_ptr of
        None \<Rightarrow> Inr entry_to_return
      | Some catalog \<Rightarrow>
          if strlen catalog \<ge> CAT_CAT_LEN then Inr entry_to_return
          else (case catalog_key CAT_CAT_LEN catalog of
                  Inl f \<Rightarrow> Inl f
                | Inr entry_to_find \<Rightarrow>
                    (case dbm_fetch (cdc_data s) entry_to_find of
                       None \<Rightarrow> Inr entry_to_return
                     | Some d \<Rightarrow> Inr d)))"

definition get_cdt_entry ::
  "nat \<Rightarrow> cd_state \<Rightarrow> string option \<Rightarrow> 32 word \<Rightarrow> fault + cdt_entry" where
  "get_cdt_entry CAT_CAT_LEN s cd_catalog_ptr track_no =
     (let entry_to_return = empty_cdt_entry in
      if cdc_dbm_ptr s = None \<or> cdt_dbm_ptr s = None then Inr entry_to_return
      else case cd_catalog_ptr of
        None \<Rightarrow> Inr entry_to_return
      | Some catalog \<Rightarrow>
          if strlen catalog \<ge> CAT_CAT_LEN then Inr entry_to_return
          else (case track_key CAT_CAT_LEN catalog track_no of
                  Inl f \<Rightarrow> Inl f
                | Inr entry_to_find \<Rightarrow>
                    (case dbm_fetch (cdt_data s) entry_to_find of
                       None \<Rightarrow> Inr entry_to_return
                     | Some d \<Rightarrow> Inr d)))"

definition add_cdc_entry :: "nat \<Rightarrow> cd_state \<Rightarrow> cdc_entry \<Rightarrow> fault + int \<times> cd_state" where
  "add_cdc_entry CAT_CAT_LEN s entry_to_add =
     (if cdc_dbm_ptr s = None \<or> cdt_dbm_ptr s = None then Inr (0, s)
      else if strlen (cdc_catalog entry_to_add) \<ge> CAT_CAT_LEN then Inr (0, s)
      else case catalog_key CAT_CAT_LEN (cdc_catalog entry_to_add) of
        Inl f \<Rightarrow> Inl f
      | Inr key_to_add \<Rightarrow>
          (let (result, tbl) = dbm_store (cdc_data s) key_to_add entry_to_add;
               s' = s\<lparr>cdc_data := tbl\<rparr>
           in if result = 0 then Inr (1, s') else Inr (0, s')))"

definition add_cdt_entry :: "nat \<Rightarrow> cd_state \<Rightarrow> cdt_entry \<Rightarrow> fault + int \<times> cd_state" where
  "add_cdt_entry CAT_CAT_LEN s entry_to_add =
     (if cdc_dbm_ptr s = None \<or> cdt_dbm_ptr s = None then Inr (0, s)
      else if strlen (cdt_catalog entry_to_add) \<ge> CAT_CAT_LEN then Inr (0, s)
      else case track_key CAT_CAT_LEN (cdt_catalog entry_to_add) (cdt_track_no entry_to_add) of
        Inl f \<Rightarrow> Inl f
      | Inr key_to_add \<Rightarrow>
          (let (result, tbl) = dbm_store (cdt_data s) key_to_add entry_to_add;
               s' = s\<lparr>cdt_data := tbl\<rparr>
           in if result = 0 then Inr (1, s') else Inr (0, s')))"

text \<open>
  The two deletions call \<^verbatim>\<open>strlen(cd_catalog_ptr)\<close> without a test of the pointer: with
  a null pointer and the database open, \<^verbatim>\<open>strlen\<close> reads through the null pointer.
\<close>

definition del_cdc_entry :: "nat \<Rightarrow> cd_state \<Rightarrow> string option \<Rightarrow> fault + int \<times> cd_state" where
  "del_cdc_entry CAT_CAT_LEN s cd_catalog_ptr =
     (if cdc_dbm_ptr s = None \<or> cdt_dbm_ptr s = None then Inr (0, s)
      else case cd_catalog_ptr of
        None \<Rightarrow> Inl Null_dereference
      | Some catalog \<Rightarrow>
          if strlen catalog \<ge> CAT_CAT_LEN then Inr (0, s)
          else (case catalog_key CAT_CAT_LEN catalog of
                  Inl f \<Rightarrow> Inl f
                | Inr key_to_del \<Rightarrow>
                    (let (result, tbl) = dbm_delete (cdc_data s) key_to_del;
                         s' = s\<lparr>cdc_data := tbl\<rparr>
                     in if result = 0 then Inr (1, s') else Inr (0, s'))))"

definition del_cdt_entry ::
  "nat \<Rightarrow> cd_state \<Rightarrow> string option \<Rightarrow> 32 word \<Rightarrow> fault + int \<times> cd_state" where
  "del_cdt_entry CAT_CAT_LEN s cd_catalog_ptr track_no =
     (if cdc_dbm_ptr s = None \<or> cdt_dbm_ptr s = None then Inr (0, s)
      else case cd_catalog_ptr of
        None \<Rightarrow> Inl Null_dereference
      | Some catalog \<Rightarrow>
          if strlen catalog \<ge> CAT_CAT_LEN then Inr (0, s)
          else (case track_key CAT_CAT_LEN catalog track_no of
                  Inl f \<Rightarrow> Inl f
                | Inr key_to_del \<Rightarrow>
                    (let (result, tbl) = dbm_delete (cdt_data s) key_to_del;
                         s' = s\<lparr>cdt_data := tbl\<rparr>
                     in if result = 0 then Inr (1, s') else Inr (0, s'))))"

section \<open>The search\<close>

text \<open>
  One run of the body of the \<^verbatim>\<open>do ... while\<close> loop of \<^verbatim>\<open>search_cdc_entry\<close>, on the key
  datum, the data datum (of which only \<^verbatim>\<open>dptr\<close> is tested: \<open>None\<close> when it is null),
  \<^verbatim>\<open>entry_to_return\<close> and the handle. The data datum is not initialised before the loop;
  it is read only after the body has assigned it.
\<close>

type_synonym search_vars = "datum \<times> cdc_entry option \<times> cdc_entry \<times> DBM"

definition search_body :: "cdc_entry table \<Rightarrow> string \<Rightarrow> search_vars \<Rightarrow> search_vars" where
  "search_body tbl cd_catalog v =
     (case v of (key_datum, data_datum, entry_to_return, db) \<Rightarrow>
        (case key_datum of
           None \<Rightarrow> v
         | Some k \<Rightarrow>
             (case dbm_fetch tbl k of
                None \<Rightarrow> (key_datum, None, entry_to_return, db)
              | Some d \<Rightarrow>
                  if strstr (cdc_catalog d) cd_catalog = None
                  then (case dbm_nextkey tbl db of
                          (key', db') \<Rightarrow> (key', Some d, empty_cdc_entry, db'))
                  else (key_datum, Some d, d, db))))"

text \<open>\<^verbatim>\<open>entry_to_return.catalog[0] == '\0'\<close>\<close>

definition catalog_empty :: "cdc_entry \<Rightarrow> bool" where
  "catalog_empty e = (case cdc_catalog e of [] \<Rightarrow> True | c # cs \<Rightarrow> c = NUL)"

definition search_continues :: "search_vars \<Rightarrow> bool" where
  "search_continues v =
     (case v of (key_datum, data_datum, entry_to_return, db) \<Rightarrow>
        key_datum \<noteq> None \<and> data_datum \<noteq> None \<and> catalog_empty entry_to_return)"

text \<open>The loop. It need not end: \<open>None\<close> is the run that never leaves it.\<close>

partial_function (option) search_loop ::
  "cdc_entry table \<Rightarrow> string \<Rightarrow> search_vars \<Rightarrow> search_vars option" where
  "search_loop tbl cd_catalog v =
     (let v' = search_body tbl cd_catalog v
      in if search_continues v' then search_loop tbl cd_catalog v' else Some v')"

declare search_loop.simps [code]

text \<open>
  \<^verbatim>\<open>search_cdc_entry\<close>. \<open>first_call_ptr\<close> is \<open>None\<close> for a null pointer and \<open>Some x\<close> for a
  pointer to an \<^verbatim>\<open>int\<close> holding \<open>x\<close>. The result is the record returned, what
  \<open>first_call_ptr\<close> points to on return, and the new state.
\<close>

definition search_cdc_entry ::
  "nat \<Rightarrow> cd_state \<Rightarrow> string option \<Rightarrow> int option \<Rightarrow>
     (cdc_entry \<times> int option \<times> cd_state) option" where
  "search_cdc_entry CAT_CAT_LEN s cd_catalog_ptr first_call_ptr =
     (let entry_to_return = empty_cdc_entry in
      case (cdc_dbm_ptr s, cdt_dbm_ptr s) of
        (Some cdc, Some cdt) \<Rightarrow>
          (case (cd_catalog_ptr, first_call_ptr) of
             (Some cd_catalog, Some first_call) \<Rightarrow>
               if strlen cd_catalog \<ge> CAT_CAT_LEN then Some (entry_to_return, first_call_ptr, s)
               else
                 let (s1, first_call1) =
                       (if local_first_call s \<noteq> 0 then (s\<lparr>local_first_call := 0\<rparr>, 1)
                        else (s, first_call));
                     (first_call2, key_datum, db) =
                       (if first_call1 \<noteq> 0 then (0, dbm_firstkey (cdc_data s1) cdc)
                        else (first_call1, dbm_nextkey (cdc_data s1) cdc))
                 in map_option
                      (\<lambda>(key_datum', data_datum', entry', db').
                         (entry', Some first_call2,
                          s1\<lparr>cdc_dbm_ptr := Some db', local_key_datum := key_datum'\<rparr>))
                      (search_loop (cdc_data s1) cd_catalog
                         (key_datum, None, entry_to_return, db))
           | _ \<Rightarrow> Some (entry_to_return, first_call_ptr, s))
      | _ \<Rightarrow> Some (entry_to_return, first_call_ptr, s))"

section \<open>Successive calls and sample data\<close>

text \<open>
  A caller that calls \<^verbatim>\<open>search_cdc_entry\<close> \<open>n\<close> times with the same search string and
  the same \<^verbatim>\<open>int\<close> variable, which holds \<open>first_call\<close> before the first call, and collects
  the records returned.
\<close>

fun search_calls ::
  "nat \<Rightarrow> nat \<Rightarrow> cd_state \<Rightarrow> string \<Rightarrow> int \<Rightarrow> cdc_entry list option" where
  "search_calls 0 CAT_CAT_LEN s cd_catalog first_call = Some []"
| "search_calls (Suc n) CAT_CAT_LEN s cd_catalog first_call =
     (case search_cdc_entry CAT_CAT_LEN s (Some cd_catalog) (Some first_call) of
        None \<Rightarrow> None
      | Some (e, first_call_ptr', s') \<Rightarrow>
          map_option ((#) e)
            (search_calls n CAT_CAT_LEN s' cd_catalog
               (case first_call_ptr' of None \<Rightarrow> first_call | Some x \<Rightarrow> x)))"

text \<open>
  What a scan is expected to find: the first record of \<open>xs\<close>, a part of the table that
  starts at index \<open>i\<close>, whose catalog holds the search string, with its index.
\<close>

fun first_match :: "string \<Rightarrow> nat \<Rightarrow> cdc_entry table \<Rightarrow> (nat \<times> cdc_entry) option" where
  "first_match cd_catalog i [] = None"
| "first_match cd_catalog i (x # xs) =
     (if strstr (cdc_catalog (snd x)) cd_catalog \<noteq> None then Some (i, snd x)
      else first_match cd_catalog (Suc i) xs)"

text \<open>
  The index at which a call of \<^verbatim>\<open>search_cdc_entry\<close> starts to look: 0 after
  \<^verbatim>\<open>dbm_firstkey\<close>, the index after the last key returned after \<^verbatim>\<open>dbm_nextkey\<close>, the
  length of the table when the iteration is over.
\<close>

definition start_index :: "cd_state \<Rightarrow> int \<Rightarrow> nat" where
  "start_index s first_call =
     (if local_first_call s \<noteq> 0 \<or> first_call \<noteq> 0 then 0
      else case cdc_dbm_ptr s of
        None \<Rightarrow> length (cdc_data s)
      | Some db \<Rightarrow> (case cursor db of None \<Rightarrow> length (cdc_data s) | Some i \<Rightarrow> Suc i))"

text \<open>
  What a scan that starts at index \<open>i\<close> is expected to leave: the key datum, the record and
  the handle.
\<close>

definition scan_result :: "cdc_entry table \<Rightarrow> string \<Rightarrow> nat \<Rightarrow> datum \<times> cdc_entry \<times> DBM" where
  "scan_result tbl cd_catalog i =
     (case first_match cd_catalog i (drop i tbl) of
        None \<Rightarrow> (None, empty_cdc_entry, \<lparr>cursor = None\<rparr>)
      | Some (j, e) \<Rightarrow> (Some (fst (tbl ! j)), e, \<lparr>cursor = Some j\<rparr>))"

text \<open>The state after a successful \<^verbatim>\<open>database_initialize(0)\<close> at process start.\<close>

definition opened :: "cdc_entry table \<Rightarrow> cdt_entry table \<Rightarrow> cd_state" where
  "opened cdc cdt = snd (database_initialize 0 True True (initial_state cdc cdt))"

definition cd1 :: cdc_entry where
  "cd1 = \<lparr>cdc_catalog = ''AAA1'', cdc_rest = ''Blue''\<rparr>"

definition cd2 :: cdc_entry where
  "cd2 = \<lparr>cdc_catalog = ''AAA2'', cdc_rest = ''Kind''\<rparr>"

definition cd3 :: cdc_entry where
  "cd3 = \<lparr>cdc_catalog = ''BBB1'', cdc_rest = ''Giant''\<rparr>"

text \<open>A catalog that holds \<open>AAA\<close>, neither at its start nor as the whole of it.\<close>

definition cd4 :: cdc_entry where
  "cd4 = \<lparr>cdc_catalog = ''XAAAY'', cdc_rest = ''Time''\<rparr>"

definition track1 :: cdt_entry where
  "track1 = \<lparr>cdt_catalog = ''AAA1'', cdt_track_no = 1, cdt_rest = ''So What''\<rparr>"

text \<open>A catalog of 29 characters, the longest that passes the test against a bound of 30.\<close>

definition long_catalog :: string where
  "long_catalog = ''ABCDEFGHIJKLMNOPQRSTUVWXYZ123''"


text \<open>
  An open database that holds the record \<open>cd1\<close> and the track \<open>track1\<close>, in a directory
  where \<^verbatim>\<open>unlink\<close> fails.
\<close>

definition kept :: cd_state where
  "kept = (opened [(padded 31 ''AAA1'', cd1)] [(padded 40 ''AAA1 1'', track1)])
            \<lparr>cdc_files_stay := True, cdt_files_stay := True\<rparr>"

section \<open>Facts about the buffers, the engine and the operations\<close>


lemma strlen_simps:
  "strlen [] = 0" "strlen (c # cs) = (if c = NUL then 0 else Suc (strlen cs))"
  by (simp_all add: strlen_def cstr_def)

lemma cstr_simps:
  "cstr [] = []" "cstr (c # cs) = (if c = NUL then [] else c # cstr cs)"
  by (simp_all add: cstr_def)

lemma length_padded: "length text \<le> n \<Longrightarrow> length (padded n text) = n"
  by (simp add: padded_def)

lemma catalog_key_fits:
  "strlen catalog < CAT_CAT_LEN \<Longrightarrow>
   catalog_key CAT_CAT_LEN catalog = Inr (padded (CAT_CAT_LEN + 1) (cstr catalog))"
  by (simp add: catalog_key_def fill_buffer_def strlen_def)

lemma track_key_fits:
  "length (format_s_d catalog t) < CAT_CAT_LEN + 10 \<Longrightarrow>
   track_key CAT_CAT_LEN catalog t = Inr (padded (CAT_CAT_LEN + 10) (format_s_d catalog t))"
  by (simp add: track_key_def fill_buffer_def)

lemma track_key_overflows:
  "\<not> length (format_s_d catalog t) < CAT_CAT_LEN + 10 \<Longrightarrow>
   track_key CAT_CAT_LEN catalog t = Inl Buffer_overflow"
  by (simp add: track_key_def fill_buffer_def)

lemma length_format_s_d:
  "length (format_s_d catalog t) = strlen catalog + 1 + length (dec_int (sint t))"
  by (simp add: format_s_d_def strlen_def)

lemma fetch_after_store:
  "dbm_fetch (snd (dbm_store tbl key content)) key = Some content"
  by (simp add: dbm_fetch_def dbm_store_def update_conv')

lemma fetch_after_delete:
  "dbm_fetch (snd (dbm_delete tbl key)) key = None"
  by (simp add: dbm_fetch_def dbm_delete_def delete_conv')

lemma delete_result:
  "fst (dbm_delete tbl key) = 0 \<longleftrightarrow> (\<exists>v. (key, v) \<in> set tbl)"
  by (auto simp: dbm_delete_def map_of_eq_None_iff intro: rev_image_eqI)

lemma delete_absent:
  "\<not> (\<exists>v. (key, v) \<in> set tbl) \<Longrightarrow> dbm_delete tbl key = (- 1, tbl)"
  by (auto simp: dbm_delete_def map_of_eq_None_iff intro: rev_image_eqI)

lemma store_result: "fst (dbm_store tbl key content) = 0"
  by (simp add: dbm_store_def)

lemma opened_simps:
  "cdc_dbm_ptr (opened cdc cdt) = Some \<lparr>cursor = None\<rparr>"
  "cdt_dbm_ptr (opened cdc cdt) = Some \<lparr>cursor = None\<rparr>"
  "cdc_data (opened cdc cdt) = cdc"
  "cdt_data (opened cdc cdt) = cdt"
  "local_first_call (opened cdc cdt) = 1"
  "local_key_datum (opened cdc cdt) = None"
  "cdc_files_stay (opened cdc cdt) = False"
  "cdt_files_stay (opened cdc cdt) = False"
  by (simp_all add: opened_def database_initialize_def initial_state_def dbm_open_def)

lemma opened_cdc_data_update: "(opened cdc cdt)\<lparr>cdc_data := tbl\<rparr> = opened tbl cdt"
  by (simp add: opened_def database_initialize_def initial_state_def dbm_open_def)

lemma opened_cdt_data_update: "(opened cdc cdt)\<lparr>cdt_data := tbl\<rparr> = opened cdc tbl"
  by (simp add: opened_def database_initialize_def initial_state_def dbm_open_def)

lemma add_cdc_entry_open:
  assumes "cdc_dbm_ptr s \<noteq> None" and "cdt_dbm_ptr s \<noteq> None"
    and "strlen (cdc_catalog r) < CAT_CAT_LEN"
  shows "add_cdc_entry CAT_CAT_LEN s r =
    Inr (1, s\<lparr>cdc_data :=
          snd (dbm_store (cdc_data s) (padded (CAT_CAT_LEN + 1) (cstr (cdc_catalog r))) r)\<rparr>)"
  unfolding add_cdc_entry_def using assms
  by (simp add: catalog_key_fits split_beta store_result del: not_None_eq)

lemma get_cdc_entry_open:
  assumes "cdc_dbm_ptr s \<noteq> None" and "cdt_dbm_ptr s \<noteq> None"
    and "strlen catalog < CAT_CAT_LEN"
  shows "get_cdc_entry CAT_CAT_LEN s (Some catalog) =
    Inr (case dbm_fetch (cdc_data s) (padded (CAT_CAT_LEN + 1) (cstr catalog)) of
           None \<Rightarrow> empty_cdc_entry | Some d \<Rightarrow> d)"
  unfolding get_cdc_entry_def using assms
  by (simp add: catalog_key_fits del: not_None_eq split: option.split)

lemma del_cdc_entry_open:
  assumes "cdc_dbm_ptr s \<noteq> None" and "cdt_dbm_ptr s \<noteq> None"
    and "strlen catalog < CAT_CAT_LEN"
  shows "del_cdc_entry CAT_CAT_LEN s (Some catalog) =
    (let d = dbm_delete (cdc_data s) (padded (CAT_CAT_LEN + 1) (cstr catalog))
     in Inr (if fst d = 0 then 1 else 0, s\<lparr>cdc_data := snd d\<rparr>))"
  unfolding del_cdc_entry_def using assms
  by (simp add: catalog_key_fits split_beta Let_def del: not_None_eq)

lemma add_cdt_entry_open:
  assumes "cdc_dbm_ptr s \<noteq> None" and "cdt_dbm_ptr s \<noteq> None"
    and "strlen (cdt_catalog r) < CAT_CAT_LEN"
    and "length (format_s_d (cdt_catalog r) (cdt_track_no r)) < CAT_CAT_LEN + 10"
  shows "add_cdt_entry CAT_CAT_LEN s r =
    Inr (1, s\<lparr>cdt_data :=
          snd (dbm_store (cdt_data s)
                 (padded (CAT_CAT_LEN + 10) (format_s_d (cdt_catalog r) (cdt_track_no r))) r)\<rparr>)"
  unfolding add_cdt_entry_def using assms
  by (simp add: track_key_fits split_beta store_result del: not_None_eq)

lemma get_cdt_entry_open:
  assumes "cdc_dbm_ptr s \<noteq> None" and "cdt_dbm_ptr s \<noteq> None"
    and "strlen catalog < CAT_CAT_LEN"
    and "length (format_s_d catalog t) < CAT_CAT_LEN + 10"
  shows "get_cdt_entry CAT_CAT_LEN s (Some catalog) t =
    Inr (case dbm_fetch (cdt_data s) (padded (CAT_CAT_LEN + 10) (format_s_d catalog t)) of
           None \<Rightarrow> empty_cdt_entry | Some d \<Rightarrow> d)"
  unfolding get_cdt_entry_def using assms
  by (simp add: track_key_fits del: not_None_eq split: option.split)

lemma del_cdt_entry_open:
  assumes "cdc_dbm_ptr s \<noteq> None" and "cdt_dbm_ptr s \<noteq> None"
    and "strlen catalog < CAT_CAT_LEN"
    and "length (format_s_d catalog t) < CAT_CAT_LEN + 10"
  shows "del_cdt_entry CAT_CAT_LEN s (Some catalog) t =
    (let d = dbm_delete (cdt_data s) (padded (CAT_CAT_LEN + 10) (format_s_d catalog t))
     in Inr (if fst d = 0 then 1 else 0, s\<lparr>cdt_data := snd d\<rparr>))"
  unfolding del_cdt_entry_def using assms
  by (simp add: track_key_fits split_beta Let_def del: not_None_eq)

lemma track_ops_overflow:
  assumes "cdc_dbm_ptr s \<noteq> None" and "cdt_dbm_ptr s \<noteq> None"
    and "strlen catalog < CAT_CAT_LEN"
    and "\<not> length (format_s_d catalog t) < CAT_CAT_LEN + 10"
  shows "get_cdt_entry CAT_CAT_LEN s (Some catalog) t = Inl Buffer_overflow"
    and "del_cdt_entry CAT_CAT_LEN s (Some catalog) t = Inl Buffer_overflow"
    and "cdt_catalog r = catalog \<Longrightarrow> cdt_track_no r = t \<Longrightarrow>
         add_cdt_entry CAT_CAT_LEN s r = Inl Buffer_overflow"
  unfolding get_cdt_entry_def del_cdt_entry_def add_cdt_entry_def using assms
  by (simp_all add: track_key_overflows del: not_None_eq)

lemma dec_nat_digit: "n < 10 \<Longrightarrow> dec_nat n = [digit n]"
  by (simp add: dec_nat.simps)

lemma dec_nat_more: "\<not> n < 10 \<Longrightarrow> dec_nat n = dec_nat (n div 10) @ [digit (n mod 10)]"
  by (subst dec_nat.simps) simp


lemma dec_int_1: "dec_int 1 = ''1''"
  by (simp add: dec_int_def dec_nat_digit digit_def)

lemma dec_int_billion: "dec_int 1000000000 = ''1000000000''"
  by (simp add: dec_int_def dec_nat_digit dec_nat_more digit_def)

lemma strlen_long_catalog: "strlen long_catalog = 29"
  by (simp add: long_catalog_def strlen_simps)

section \<open>Round trips\<close>

text \<open>
  C1: for every catalog record \<open>r\<close> whose catalog is a string shorter than
  \<open>CAT_CAT_LEN\<close>, with the database open, when \<open>add_cdc_entry r\<close> returns 1, the call
  \<open>get_cdc_entry\<close> on the catalog of \<open>r\<close> in the state it leaves returns \<open>r\<close>.
\<close>

theorem add_cdc_then_get_cdc:
  assumes "cdc_dbm_ptr s \<noteq> None" and "cdt_dbm_ptr s \<noteq> None"
    and "strlen (cdc_catalog r) < CAT_CAT_LEN"
    and "add_cdc_entry CAT_CAT_LEN s r = Inr (1, s')"
  shows "get_cdc_entry CAT_CAT_LEN s' (Some (cdc_catalog r)) = Inr r"
proof -
  have s': "s' = s\<lparr>cdc_data :=
          snd (dbm_store (cdc_data s) (padded (CAT_CAT_LEN + 1) (cstr (cdc_catalog r))) r)\<rparr>"
    using assms(4) by (simp add: add_cdc_entry_open [OF assms(1-3)])
  have "cdc_dbm_ptr s' \<noteq> None" and "cdt_dbm_ptr s' \<noteq> None"
    using assms(1,2) by (simp_all add: s')
  then show ?thesis
    using assms(3) by (simp add: get_cdc_entry_open s' fetch_after_store)
qed

theorem add_cdc_then_get_cdc_witness:
  "cdc_dbm_ptr (opened [] []) \<noteq> None \<and> cdt_dbm_ptr (opened [] []) \<noteq> None \<and>
   strlen (cdc_catalog cd1) < 30 \<and>
   add_cdc_entry 30 (opened [] []) cd1 = Inr (1, opened [(padded 31 ''AAA1'', cd1)] []) \<and>
   get_cdc_entry 30 (opened [(padded 31 ''AAA1'', cd1)] []) (Some ''AAA1'') = Inr cd1"
proof -
  have o: "cdc_dbm_ptr (opened [] []) \<noteq> None" "cdt_dbm_ptr (opened [] []) \<noteq> None"
    by (simp_all add: opened_simps)
  have l: "strlen (cdc_catalog cd1) < 30"
    by (simp add: cd1_def strlen_simps)
  have a: "add_cdc_entry 30 (opened [] []) cd1 = Inr (1, opened [(padded 31 ''AAA1'', cd1)] [])"
    using add_cdc_entry_open [OF o l]
    by (simp add: opened_simps opened_cdc_data_update dbm_store_def cd1_def cstr_simps)
  have "get_cdc_entry 30 (opened [(padded 31 ''AAA1'', cd1)] []) (Some (cdc_catalog cd1)) = Inr cd1"
    using add_cdc_then_get_cdc [OF o l a] .
  then show ?thesis using o l a by (simp add: cd1_def)
qed

text \<open>
  The round trip of a track record whose key text fits the key buffer with its
  terminating zero.
\<close>

lemma add_cdt_then_get_cdt_fitting:
  assumes "cdc_dbm_ptr s \<noteq> None" and "cdt_dbm_ptr s \<noteq> None"
    and "strlen (cdt_catalog r) < CAT_CAT_LEN"
    and "length (format_s_d (cdt_catalog r) (cdt_track_no r)) < CAT_CAT_LEN + 10"
  shows "add_cdt_entry CAT_CAT_LEN s r =
           Inr (1, s\<lparr>cdt_data :=
                 snd (dbm_store (cdt_data s)
                        (padded (CAT_CAT_LEN + 10) (format_s_d (cdt_catalog r) (cdt_track_no r)))
                        r)\<rparr>)"
    and "get_cdt_entry CAT_CAT_LEN
           (s\<lparr>cdt_data :=
                 snd (dbm_store (cdt_data s)
                        (padded (CAT_CAT_LEN + 10) (format_s_d (cdt_catalog r) (cdt_track_no r)))
                        r)\<rparr>)
           (Some (cdt_catalog r)) (cdt_track_no r) = Inr r"
proof -
  show "add_cdt_entry CAT_CAT_LEN s r =
           Inr (1, s\<lparr>cdt_data :=
                 snd (dbm_store (cdt_data s)
                        (padded (CAT_CAT_LEN + 10) (format_s_d (cdt_catalog r) (cdt_track_no r)))
                        r)\<rparr>)"
    using assms by (rule add_cdt_entry_open)
  show "get_cdt_entry CAT_CAT_LEN
           (s\<lparr>cdt_data :=
                 snd (dbm_store (cdt_data s)
                        (padded (CAT_CAT_LEN + 10) (format_s_d (cdt_catalog r) (cdt_track_no r)))
                        r)\<rparr>)
           (Some (cdt_catalog r)) (cdt_track_no r) = Inr r"
    using assms by (simp add: get_cdt_entry_open fetch_after_store)
qed


section \<open>Deletion\<close>

text \<open>
  C4: with the database open and a catalog \<open>k\<close> shorter than \<open>CAT_CAT_LEN\<close>: when
  \<open>del_cdc_entry k\<close> returns 1, \<open>get_cdc_entry k\<close> in the state it leaves returns the
  empty record; \<open>del_cdc_entry k\<close> returns 1 exactly when the table holds a record under
  the key of \<open>k\<close>, and returns 0, leaving the state as it is, when it holds none.
\<close>

theorem del_cdc_then_get_cdc:
  assumes "cdc_dbm_ptr s \<noteq> None" and "cdt_dbm_ptr s \<noteq> None"
    and "strlen k < CAT_CAT_LEN"
  shows "(del_cdc_entry CAT_CAT_LEN s (Some k) = Inr (1, s') \<longrightarrow>
            get_cdc_entry CAT_CAT_LEN s' (Some k) = Inr empty_cdc_entry) \<and>
         ((\<exists>s''. del_cdc_entry CAT_CAT_LEN s (Some k) = Inr (1, s'')) \<longleftrightarrow>
            (\<exists>e. (padded (CAT_CAT_LEN + 1) (cstr k), e) \<in> set (cdc_data s))) \<and>
         (\<not> (\<exists>e. (padded (CAT_CAT_LEN + 1) (cstr k), e) \<in> set (cdc_data s)) \<longrightarrow>
            del_cdc_entry CAT_CAT_LEN s (Some k) = Inr (0, s))"
proof -
  let ?key = "padded (CAT_CAT_LEN + 1) (cstr k)"
  let ?d = "dbm_delete (cdc_data s) ?key"
  have del: "del_cdc_entry CAT_CAT_LEN s (Some k) =
               Inr (if fst ?d = 0 then 1 else 0, s\<lparr>cdc_data := snd ?d\<rparr>)"
    using del_cdc_entry_open [OF assms] by (simp add: Let_def)
  have get: "get_cdc_entry CAT_CAT_LEN (s\<lparr>cdc_data := snd ?d\<rparr>) (Some k) = Inr empty_cdc_entry"
    using assms by (simp add: get_cdc_entry_open fetch_after_delete)
  have a: "del_cdc_entry CAT_CAT_LEN s (Some k) = Inr (1, s') \<longrightarrow>
            get_cdc_entry CAT_CAT_LEN s' (Some k) = Inr empty_cdc_entry"
    using get by (auto simp: del split: if_splits)
  have b: "(\<exists>s''. del_cdc_entry CAT_CAT_LEN s (Some k) = Inr (1, s'')) \<longleftrightarrow>
            (\<exists>e. (?key, e) \<in> set (cdc_data s))"
    using delete_result [of "cdc_data s" ?key] by (auto simp: del)
  have c: "\<not> (\<exists>e. (?key, e) \<in> set (cdc_data s)) \<longrightarrow>
            del_cdc_entry CAT_CAT_LEN s (Some k) = Inr (0, s)"
    using delete_absent [of ?key "cdc_data s"] by (auto simp: del)
  from a b c show ?thesis by blast
qed

theorem del_cdc_then_get_cdc_witness:
  "cdc_dbm_ptr (opened [(padded 31 ''AAA1'', cd1)] []) \<noteq> None \<and>
   cdt_dbm_ptr (opened [(padded 31 ''AAA1'', cd1)] []) \<noteq> None \<and>
   strlen ''AAA1'' < 30 \<and>
   del_cdc_entry 30 (opened [(padded 31 ''AAA1'', cd1)] []) (Some ''AAA1'') = Inr (1, opened [] []) \<and>
   get_cdc_entry 30 (opened [] []) (Some ''AAA1'') = Inr empty_cdc_entry \<and>
   del_cdc_entry 30 (opened [] []) (Some ''AAA1'') = Inr (0, opened [] [])"
proof -
  let ?s = "opened [(padded 31 ''AAA1'', cd1)] []"
  have o: "cdc_dbm_ptr ?s \<noteq> None" "cdt_dbm_ptr ?s \<noteq> None"
    and o': "cdc_dbm_ptr (opened [] []) \<noteq> None" "cdt_dbm_ptr (opened [] []) \<noteq> None"
    by (simp_all add: opened_simps)
  have l: "strlen ''AAA1'' < 30"
    by (simp add: strlen_simps)
  have d: "del_cdc_entry 30 ?s (Some ''AAA1'') = Inr (1, opened [] [])"
    using del_cdc_entry_open [OF o l]
    by (simp add: opened_simps opened_cdc_data_update dbm_delete_def cstr_simps)
  have g: "get_cdc_entry 30 (opened [] []) (Some ''AAA1'') = Inr empty_cdc_entry"
    using del_cdc_then_get_cdc [OF o l, of "opened [] []"] d by simp
  have n: "del_cdc_entry 30 (opened [] []) (Some ''AAA1'') = Inr (0, opened [] [])"
    using del_cdc_then_get_cdc [OF o' l] by (simp add: opened_simps)
  show ?thesis using o l d g n by simp
qed

section \<open>The two handles\<close>

text \<open>
  C7: after \<open>database_initialize\<close> the two handles are both null or both open, after
  \<open>database_close\<close> both are null; when either \<^verbatim>\<open>dbm_open\<close> fails,
  \<open>database_initialize\<close> returns 0 and leaves both handles null, and when both succeed
  it returns 1 and leaves both open.
\<close>

theorem handles_transition_together:
  "(cdc_dbm_ptr (snd (database_initialize new_database cdc_opens cdt_opens s)) = None \<longleftrightarrow>
    cdt_dbm_ptr (snd (database_initialize new_database cdc_opens cdt_opens s)) = None) \<and>
   (cdc_dbm_ptr (database_close s) = None \<and> cdt_dbm_ptr (database_close s) = None) \<and>
   (\<not> cdc_opens \<or> \<not> cdt_opens \<longrightarrow>
      fst (database_initialize new_database cdc_opens cdt_opens s) = 0 \<and>
      cdc_dbm_ptr (snd (database_initialize new_database cdc_opens cdt_opens s)) = None \<and>
      cdt_dbm_ptr (snd (database_initialize new_database cdc_opens cdt_opens s)) = None) \<and>
   (cdc_opens \<and> cdt_opens \<longrightarrow>
      fst (database_initialize new_database cdc_opens cdt_opens s) = 1 \<and>
      cdc_dbm_ptr (snd (database_initialize new_database cdc_opens cdt_opens s)) \<noteq> None \<and>
      cdt_dbm_ptr (snd (database_initialize new_database cdc_opens cdt_opens s)) \<noteq> None)"
  by (simp add: database_initialize_def database_close_def dbm_open_def Let_def)

theorem handles_transition_together_witness:
  "fst (database_initialize 0 True False (opened [] [])) = 0 \<and>
   cdc_dbm_ptr (snd (database_initialize 0 True False (opened [] []))) = None \<and>
   cdt_dbm_ptr (snd (database_initialize 0 True False (opened [] []))) = None \<and>
   fst (database_initialize 0 True True (initial_state [] [])) = 1 \<and>
   cdc_dbm_ptr (snd (database_initialize 0 True True (initial_state [] []))) \<noteq> None \<and>
   cdt_dbm_ptr (snd (database_initialize 0 True True (initial_state [] []))) \<noteq> None"
  using handles_transition_together [of 0 True False "opened [] []"]
    handles_transition_together [of 0 True True "initial_state [] []"]
  by simp

section \<open>The tests at the head of each operation\<close>

text \<open>
  With a handle null, with a catalog not shorter than \<open>CAT_CAT_LEN\<close>, and in the
  functions that test their pointers, each operation returns the empty record or 0 and
  leaves the state as it is.
\<close>

lemma closed_store_guard:
  assumes "cdc_dbm_ptr s = None \<or> cdt_dbm_ptr s = None"
  shows "get_cdc_entry CAT_CAT_LEN s p = Inr empty_cdc_entry"
    and "get_cdt_entry CAT_CAT_LEN s p t = Inr empty_cdt_entry"
    and "add_cdc_entry CAT_CAT_LEN s c = Inr (0, s)"
    and "add_cdt_entry CAT_CAT_LEN s r = Inr (0, s)"
    and "del_cdc_entry CAT_CAT_LEN s p = Inr (0, s)"
    and "del_cdt_entry CAT_CAT_LEN s p t = Inr (0, s)"
    and "search_cdc_entry CAT_CAT_LEN s p f = Some (empty_cdc_entry, f, s)"
  using assms
  by (auto simp: get_cdc_entry_def get_cdt_entry_def add_cdc_entry_def add_cdt_entry_def
      del_cdc_entry_def del_cdt_entry_def search_cdc_entry_def split: option.splits)

lemma long_catalog_guard:
  assumes "CAT_CAT_LEN \<le> strlen catalog"
  shows "get_cdc_entry CAT_CAT_LEN s (Some catalog) = Inr empty_cdc_entry"
    and "get_cdt_entry CAT_CAT_LEN s (Some catalog) t = Inr empty_cdt_entry"
    and "cdc_catalog c = catalog \<Longrightarrow> add_cdc_entry CAT_CAT_LEN s c = Inr (0, s)"
    and "cdt_catalog r = catalog \<Longrightarrow> add_cdt_entry CAT_CAT_LEN s r = Inr (0, s)"
    and "del_cdc_entry CAT_CAT_LEN s (Some catalog) = Inr (0, s)"
    and "del_cdt_entry CAT_CAT_LEN s (Some catalog) t = Inr (0, s)"
    and "search_cdc_entry CAT_CAT_LEN s (Some catalog) f = Some (empty_cdc_entry, f, s)"
  using assms
  by (auto simp: get_cdc_entry_def get_cdt_entry_def add_cdc_entry_def add_cdt_entry_def
      del_cdc_entry_def del_cdt_entry_def search_cdc_entry_def split: option.splits)

lemma null_pointer_guard:
  shows "get_cdc_entry CAT_CAT_LEN s None = Inr empty_cdc_entry"
    and "get_cdt_entry CAT_CAT_LEN s None t = Inr empty_cdt_entry"
    and "search_cdc_entry CAT_CAT_LEN s None f = Some (empty_cdc_entry, f, s)"
    and "search_cdc_entry CAT_CAT_LEN s p None = Some (empty_cdc_entry, None, s)"
  by (auto simp: get_cdc_entry_def get_cdt_entry_def search_cdc_entry_def split: option.splits)

text \<open>
  C3: every operation is to return the empty record or 0 when the database is not open,
  when a string argument is null or when the catalog is not shorter than \<open>CAT_CAT_LEN\<close>.
  With the database open, \<open>del_cdc_entry\<close> and \<open>del_cdt_entry\<close> called with a null
  pointer read through it, where \<open>get_cdc_entry\<close> and \<open>get_cdt_entry\<close> test the pointer
  and return the empty record.
\<close>

theorem del_entry_null_pointer:
  "del_cdc_entry 30 (opened [] []) None = Inl Null_dereference \<and>
   del_cdt_entry 30 (opened [] []) None 1 = Inl Null_dereference \<and>
   get_cdc_entry 30 (opened [] []) None = Inr empty_cdc_entry \<and>
   get_cdt_entry 30 (opened [] []) None 1 = Inr empty_cdt_entry"
  by (simp add: del_cdc_entry_def del_cdt_entry_def get_cdc_entry_def get_cdt_entry_def
      opened_simps)

section \<open>The track key\<close>

text \<open>
  C5, as stated: the key of a track operation is the text \<^verbatim>\<open><catalog> <track_no>\<close>
  zero-filled to a buffer of exactly \<open>CAT_CAT_LEN + 9\<close> bytes. With a bound of 30, the key
  under which \<open>add_cdt_entry\<close> stores track 1 of \<open>AAA1\<close> has 40 bytes, not 39.
\<close>

theorem track_key_counterexample:
  "add_cdt_entry 30 (opened [] []) track1 =
     Inr (1, opened [] [(''AAA1 1'' @ replicate 34 NUL, track1)]) \<and>
   length (''AAA1 1'' @ replicate 34 NUL) \<noteq> 30 + 9"
proof -
  have o: "cdc_dbm_ptr (opened [] []) \<noteq> None" "cdt_dbm_ptr (opened [] []) \<noteq> None"
    by (simp_all add: opened_simps)
  have l: "strlen (cdt_catalog track1) < 30"
    by (simp add: track1_def strlen_simps)
  have f: "format_s_d (cdt_catalog track1) (cdt_track_no track1) = ''AAA1 1''"
    by (simp add: format_s_d_def track1_def cstr_simps dec_int_1)
  have "add_cdt_entry 30 (opened [] []) track1
          = Inr (1, opened [] [(padded 40 ''AAA1 1'', track1)])"
    using add_cdt_entry_open [OF o l]
    by (simp add: f opened_simps opened_cdt_data_update dbm_store_def)
  then show ?thesis by (simp add: padded_def)
qed

text \<open>
  C5, amended: with the database open, a catalog shorter than \<open>CAT_CAT_LEN\<close> and a text
  \<^verbatim>\<open><catalog> <track_no>\<close> that fits the buffer with its terminating zero, the key of
  \<open>get_cdt_entry\<close>, \<open>add_cdt_entry\<close> and \<open>del_cdt_entry\<close> is that text (the catalog, a
  space, the decimal digits of the track number) zero-filled to exactly \<open>CAT_CAT_LEN + 10\<close>
  bytes, and the engine is called with the whole buffer.
\<close>

theorem track_key_is_padded_text:
  assumes "cdc_dbm_ptr s \<noteq> None" and "cdt_dbm_ptr s \<noteq> None"
    and "strlen (cdt_catalog r) < CAT_CAT_LEN"
    and "length (format_s_d (cdt_catalog r) (cdt_track_no r)) + 1 \<le> CAT_CAT_LEN + 10"
  shows "let text = cstr (cdt_catalog r) @ '' '' @ dec_int (sint (cdt_track_no r));
             key = text @ replicate (CAT_CAT_LEN + 10 - length text) NUL
         in length key = CAT_CAT_LEN + 10 \<and>
            track_key CAT_CAT_LEN (cdt_catalog r) (cdt_track_no r) = Inr key \<and>
            get_cdt_entry CAT_CAT_LEN s (Some (cdt_catalog r)) (cdt_track_no r) =
              Inr (case dbm_fetch (cdt_data s) key of None \<Rightarrow> empty_cdt_entry | Some d \<Rightarrow> d) \<and>
            add_cdt_entry CAT_CAT_LEN s r =
              Inr (1, s\<lparr>cdt_data := snd (dbm_store (cdt_data s) key r)\<rparr>) \<and>
            del_cdt_entry CAT_CAT_LEN s (Some (cdt_catalog r)) (cdt_track_no r) =
              Inr (if fst (dbm_delete (cdt_data s) key) = 0 then 1 else 0,
                   s\<lparr>cdt_data := snd (dbm_delete (cdt_data s) key)\<rparr>)"
proof -
  have fits: "length (format_s_d (cdt_catalog r) (cdt_track_no r)) < CAT_CAT_LEN + 10"
    using assms(4) by simp
  have key: "cstr (cdt_catalog r) @ '' '' @ dec_int (sint (cdt_track_no r)) =
             format_s_d (cdt_catalog r) (cdt_track_no r)"
    by (simp add: format_s_d_def)
  have pad: "\<And>text. text @ replicate (CAT_CAT_LEN + 10 - length text) NUL
               = padded (CAT_CAT_LEN + 10) text"
    by (simp add: padded_def)
  have len: "length (padded (CAT_CAT_LEN + 10) (format_s_d (cdt_catalog r) (cdt_track_no r)))
               = CAT_CAT_LEN + 10"
    using fits by (simp add: length_padded)
  show ?thesis
    unfolding Let_def key pad
    using len track_key_fits [OF fits] get_cdt_entry_open [OF assms(1-3) fits]
      add_cdt_entry_open [OF assms(1-3) fits] del_cdt_entry_open [OF assms(1-3) fits]
    by (simp only: Let_def simp_thms)
qed

theorem track_key_is_padded_text_witness:
  "cdc_dbm_ptr (opened [] []) \<noteq> None \<and> cdt_dbm_ptr (opened [] []) \<noteq> None \<and>
   strlen (cdt_catalog track1) < 30 \<and>
   length (format_s_d (cdt_catalog track1) (cdt_track_no track1)) + 1 \<le> 30 + 10 \<and>
   track_key 30 ''AAA1'' 1 = Inr (''AAA1 1'' @ replicate 34 NUL) \<and>
   length (''AAA1 1'' @ replicate 34 NUL) = 40"
proof -
  have o: "cdc_dbm_ptr (opened [] []) \<noteq> None" "cdt_dbm_ptr (opened [] []) \<noteq> None"
    by (simp_all add: opened_simps)
  have l: "strlen (cdt_catalog track1) < 30"
    by (simp add: track1_def strlen_simps)
  have f: "format_s_d (cdt_catalog track1) (cdt_track_no track1) = ''AAA1 1''"
    by (simp add: format_s_d_def track1_def cstr_simps dec_int_1)
  have n: "length (format_s_d (cdt_catalog track1) (cdt_track_no track1)) + 1 \<le> 30 + 10"
    by (simp add: f)
  show ?thesis
    using track_key_is_padded_text [OF o l n] o l n
    by (simp add: Let_def track1_def cstr_simps dec_int_1)
qed

text \<open>
  C10: the track operations do not look at \<open>track_no\<close> before they build the key: with the
  database open and a catalog shorter than \<open>CAT_CAT_LEN\<close>, each of them writes past the
  end of its buffer of \<open>CAT_CAT_LEN + 10\<close> bytes exactly when the length of the catalog,
  plus one, plus the length of the decimal text of \<open>track_no\<close> (with its sign) exceeds
  \<open>CAT_CAT_LEN + 9\<close>; a catalog of 29 characters with the track number 1000000000
  overflows a buffer made for a bound of 30.
\<close>

theorem track_key_write_in_bounds:
  assumes "cdc_dbm_ptr s \<noteq> None" and "cdt_dbm_ptr s \<noteq> None"
    and "strlen (cdt_catalog r) < CAT_CAT_LEN"
  shows "(get_cdt_entry CAT_CAT_LEN s (Some (cdt_catalog r)) (cdt_track_no r) = Inl Buffer_overflow
            \<longleftrightarrow> \<not> strlen (cdt_catalog r) + 1 + length (dec_int (sint (cdt_track_no r)))
                    \<le> CAT_CAT_LEN + 9) \<and>
         (add_cdt_entry CAT_CAT_LEN s r = Inl Buffer_overflow
            \<longleftrightarrow> \<not> strlen (cdt_catalog r) + 1 + length (dec_int (sint (cdt_track_no r)))
                    \<le> CAT_CAT_LEN + 9) \<and>
         (del_cdt_entry CAT_CAT_LEN s (Some (cdt_catalog r)) (cdt_track_no r) = Inl Buffer_overflow
            \<longleftrightarrow> \<not> strlen (cdt_catalog r) + 1 + length (dec_int (sint (cdt_track_no r)))
                    \<le> CAT_CAT_LEN + 9)"
proof (cases "length (format_s_d (cdt_catalog r) (cdt_track_no r)) < CAT_CAT_LEN + 10")
  case True
  then have "strlen (cdt_catalog r) + 1 + length (dec_int (sint (cdt_track_no r)))
               \<le> CAT_CAT_LEN + 9"
    by (simp add: length_format_s_d)
  then show ?thesis
    using get_cdt_entry_open [OF assms True] add_cdt_entry_open [OF assms True]
      del_cdt_entry_open [OF assms True]
    by (simp add: Let_def)
next
  case False
  then have "\<not> strlen (cdt_catalog r) + 1 + length (dec_int (sint (cdt_track_no r)))
               \<le> CAT_CAT_LEN + 9"
    by (simp add: length_format_s_d)
  then show ?thesis
    using track_ops_overflow(1,2) [OF assms False] track_ops_overflow(3) [OF assms False, of r]
    by simp
qed

theorem track_key_write_in_bounds_witness:
  "cdc_dbm_ptr (opened [] []) \<noteq> None \<and> cdt_dbm_ptr (opened [] []) \<noteq> None \<and>
   strlen long_catalog < 30 \<and>
   get_cdt_entry 30 (opened [] []) (Some long_catalog) 1000000000 = Inl Buffer_overflow \<and>
   add_cdt_entry 30 (opened [] [])
     \<lparr>cdt_catalog = long_catalog, cdt_track_no = 1000000000, cdt_rest = []\<rparr> = Inl Buffer_overflow \<and>
   del_cdt_entry 30 (opened [] []) (Some long_catalog) 1000000000 = Inl Buffer_overflow \<and>
   get_cdt_entry 30 (opened [] []) (Some long_catalog) 999999999 \<noteq> Inl Buffer_overflow"
proof -
  have o: "cdc_dbm_ptr (opened [] []) \<noteq> None" "cdt_dbm_ptr (opened [] []) \<noteq> None"
    by (simp_all add: opened_simps)
  have l: "strlen long_catalog < 30"
    by (simp add: strlen_long_catalog)
  have d: "length (dec_int 1000000000) = 10"
    by (simp add: dec_int_billion)
  have d': "length (dec_int 999999999) = 9"
    by (simp add: dec_int_def dec_nat_digit dec_nat_more digit_def)
  show ?thesis
    using track_key_write_in_bounds [of "opened [] []"
        "\<lparr>cdt_catalog = long_catalog, cdt_track_no = 1000000000, cdt_rest = []\<rparr>" 30]
      track_key_write_in_bounds [of "opened [] []"
        "\<lparr>cdt_catalog = long_catalog, cdt_track_no = 999999999, cdt_rest = []\<rparr>" 30]
      o l
    by (simp add: strlen_long_catalog d d')
qed

section \<open>A new database\<close>

text \<open>
  When the calls of \<^verbatim>\<open>unlink\<close> remove the files: whatever the databases held, after
  \<open>database_initialize\<close> with a nonzero argument has returned 1, \<open>get_cdc_entry\<close> returns
  the empty record for every pointer, and \<open>get_cdt_entry\<close> returns the empty record for
  every pointer and track number whose key text fits the key buffer.
\<close>

lemma reset_with_files_removed:
  assumes "new_database \<noteq> 0"
    and "database_initialize new_database cdc_opens cdt_opens s = (1, s')"
    and "\<not> cdc_files_stay s" and "\<not> cdt_files_stay s"
  shows "get_cdc_entry CAT_CAT_LEN s' cdc_catalog_ptr = Inr empty_cdc_entry"
    and "(case cdt_catalog_ptr of
            None \<Rightarrow> True
          | Some catalog \<Rightarrow>
              strlen catalog < CAT_CAT_LEN \<longrightarrow>
              strlen catalog + 1 + length (dec_int (sint track_no)) \<le> CAT_CAT_LEN + 9) \<Longrightarrow>
         get_cdt_entry CAT_CAT_LEN s' cdt_catalog_ptr track_no = Inr empty_cdt_entry"
proof -
  have s': "cdc_data s' = []" "cdt_data s' = []"
    using assms
    by (auto simp: database_initialize_def unlink_files_def Let_def split: if_splits)
  show "get_cdc_entry CAT_CAT_LEN s' cdc_catalog_ptr = Inr empty_cdc_entry"
    by (simp add: get_cdc_entry_def s' dbm_fetch_def catalog_key_fits
        split: option.split sum.split)
  show "get_cdt_entry CAT_CAT_LEN s' cdt_catalog_ptr track_no = Inr empty_cdt_entry"
    if "case cdt_catalog_ptr of
             None \<Rightarrow> True
           | Some catalog \<Rightarrow>
               strlen catalog < CAT_CAT_LEN \<longrightarrow>
               strlen catalog + 1 + length (dec_int (sint track_no)) \<le> CAT_CAT_LEN + 9"
    using that
    by (auto simp: get_cdt_entry_def s' dbm_fetch_def track_key_fits length_format_s_d
        split: option.split sum.split)
qed

text \<open>
  C8: after a successful \<open>database_initialize\<close> with a nonzero argument every lookup is to
  return the empty record, whatever the databases held. The code discards the results of
  its four calls of \<^verbatim>\<open>unlink\<close> and returns 1 when both calls of \<^verbatim>\<open>dbm_open\<close> succeed:
  in the state \<open>kept\<close>, where \<^verbatim>\<open>unlink\<close> fails, \<open>database_initialize 1\<close> returns 1 and
  the lookups that follow return the record \<open>cd1\<close> and the track \<open>track1\<close>, which the
  databases held before.
\<close>

theorem reset_keeps_records_when_unlink_fails:
  "fst (database_initialize 1 True True kept) = 1 \<and>
   get_cdc_entry 30 (snd (database_initialize 1 True True kept)) (Some ''AAA1'') = Inr cd1 \<and>
   get_cdt_entry 30 (snd (database_initialize 1 True True kept)) (Some ''AAA1'') 1 = Inr track1 \<and>
   cd1 \<noteq> empty_cdc_entry \<and> track1 \<noteq> empty_cdt_entry"
proof -
  let ?s = "snd (database_initialize 1 True True kept)"
  have i: "fst (database_initialize 1 True True kept) = 1"
    and o: "cdc_dbm_ptr ?s \<noteq> None" "cdt_dbm_ptr ?s \<noteq> None"
    and c: "cdc_data ?s = [(padded 31 ''AAA1'', cd1)]"
    and d: "cdt_data ?s = [(padded 40 ''AAA1 1'', track1)]"
    by (simp_all add: database_initialize_def kept_def unlink_files_def dbm_open_def
        opened_simps Let_def)
  have l: "strlen ''AAA1'' < 30"
    by (simp add: strlen_simps)
  have f: "format_s_d ''AAA1'' 1 = ''AAA1 1''"
    by (simp add: format_s_d_def cstr_simps dec_int_1)
  have n: "length (format_s_d ''AAA1'' 1) < 30 + 10"
    by (simp add: f)
  have g: "get_cdc_entry 30 ?s (Some ''AAA1'') = Inr cd1"
    by (simp add: get_cdc_entry_open [OF o l] c dbm_fetch_def cstr_simps)
  have h: "get_cdt_entry 30 ?s (Some ''AAA1'') 1 = Inr track1"
    by (simp add: get_cdt_entry_open [OF o l n] d dbm_fetch_def f)
  have e: "cd1 \<noteq> empty_cdc_entry" "track1 \<noteq> empty_cdt_entry"
    by (simp_all add: cd1_def track1_def empty_cdc_entry_def empty_cdt_entry_def)
  from i g h e show ?thesis by simp
qed

section \<open>The scan\<close>


lemma strstr_from_iff_sublist: "strstr_from h n = None \<longleftrightarrow> \<not> sublist n h"
  by (induction h) (auto simp: sublist_Cons_right)

lemma strstr_iff_sublist: "strstr h n = None \<longleftrightarrow> \<not> sublist (cstr n) (cstr h)"
  by (simp add: strstr_def strstr_from_iff_sublist)

lemma key_at_beyond: "length tbl \<le> i \<Longrightarrow> key_at tbl i = (None, \<lparr>cursor = None\<rparr>)"
  by (simp add: key_at_def)

lemma key_at_within:
  "i < length tbl \<Longrightarrow> key_at tbl i = (Some (fst (tbl ! i)), \<lparr>cursor = Some i\<rparr>)"
  by (simp add: key_at_def)

lemma fetch_nth:
  "distinct (map fst tbl) \<Longrightarrow> i < length tbl \<Longrightarrow>
   dbm_fetch tbl (fst (tbl ! i)) = Some (snd (tbl ! i))"
  by (simp add: dbm_fetch_def)

lemma search_loop_no_key:
  "search_loop tbl p (None, d, e, db) = Some (None, d, e, db)"
  by (subst search_loop.simps) (simp add: search_body_def search_continues_def)

lemma catalog_empty_empty: "catalog_empty empty_cdc_entry"
  by (simp add: catalog_empty_def empty_cdc_entry_def)

lemma search_loop_from:
  assumes "distinct (map fst tbl)"
    and "\<forall>x \<in> set tbl. \<not> catalog_empty (snd x)"
  shows "map_option (\<lambda>(k, d, e, db). (k, e, db))
           (search_loop tbl p (fst (key_at tbl i), d, empty_cdc_entry, snd (key_at tbl i)))
         = Some (scan_result tbl p i)"
proof (induction "length tbl - i" arbitrary: i d rule: less_induct)
  case less
  show ?case
  proof (cases "i < length tbl")
    case False
    then show ?thesis
      by (simp add: key_at_beyond search_loop_no_key scan_result_def)
  next
    case True
    let ?e = "snd (tbl ! i)"
    have dr: "drop i tbl = (tbl ! i) # drop (Suc i) tbl"
      using True by (simp add: Cons_nth_drop_Suc)
    have fe: "dbm_fetch tbl (fst (tbl ! i)) = Some ?e"
      using assms(1) True by (rule fetch_nth)
    have ne: "\<not> catalog_empty ?e"
      using assms(2) True by simp
    show ?thesis
    proof (cases "strstr (cdc_catalog ?e) p = None")
      case False
      then have body: "search_body tbl p (Some (fst (tbl ! i)), d, empty_cdc_entry, \<lparr>cursor = Some i\<rparr>)
            = (Some (fst (tbl ! i)), Some ?e, ?e, \<lparr>cursor = Some i\<rparr>)"
        by (simp add: search_body_def fe del: not_None_eq)
      have fm: "first_match p i (drop i tbl) = Some (i, ?e)"
        using False by (simp add: dr del: not_None_eq)
      show ?thesis
        using True ne
        by (subst search_loop.simps)
          (simp add: key_at_within body Let_def search_continues_def scan_result_def fm)
    next
      case nomatch: True
      have body: "search_body tbl p (Some (fst (tbl ! i)), d, empty_cdc_entry, \<lparr>cursor = Some i\<rparr>)
            = (fst (key_at tbl (Suc i)), Some ?e, empty_cdc_entry, snd (key_at tbl (Suc i)))"
        using nomatch by (simp add: search_body_def fe dbm_nextkey_def split_beta)
      have step: "search_loop tbl p (Some (fst (tbl ! i)), d, empty_cdc_entry, \<lparr>cursor = Some i\<rparr>)
            = search_loop tbl p
                (fst (key_at tbl (Suc i)), Some ?e, empty_cdc_entry, snd (key_at tbl (Suc i)))"
      proof (cases "Suc i < length tbl")
        case True
        then show ?thesis
          by (subst search_loop.simps)
            (simp add: body Let_def search_continues_def key_at_within catalog_empty_empty)
      next
        case False
        then show ?thesis
          by (subst search_loop.simps)
            (simp add: body Let_def search_continues_def key_at_beyond search_loop_no_key)
      qed
      have dec: "length tbl - Suc i < length tbl - i"
        using True by simp
      have fm: "first_match p i (drop i tbl) = first_match p (Suc i) (drop (Suc i) tbl)"
        using nomatch by (simp add: dr)
      from less [OF dec, of "Some ?e"] show ?thesis
        using True by (simp add: key_at_within step scan_result_def fm)
    qed
  qed
qed


lemma first_match_None:
  "first_match p i xs = None \<Longrightarrow>
   filter (\<lambda>e. strstr (cdc_catalog e) p \<noteq> None) (map snd xs) = []"
  by (induction xs arbitrary: i) (auto split: if_splits)

lemma first_match_Some:
  "first_match p i xs = Some (j, e) \<Longrightarrow>
   i \<le> j \<and> j - i < length xs \<and>
   filter (\<lambda>e. strstr (cdc_catalog e) p \<noteq> None) (map snd xs) =
     e # filter (\<lambda>e. strstr (cdc_catalog e) p \<noteq> None) (map snd (drop (Suc (j - i)) xs))"
proof (induction xs arbitrary: i)
  case Nil
  then show ?case by simp
next
  case (Cons x xs)
  show ?case
  proof (cases "strstr (cdc_catalog (snd x)) p = None")
    case True
    with Cons.prems have "first_match p (Suc i) xs = Some (j, e)" by simp
    from Cons.IH [OF this] have le: "Suc i \<le> j" and lt: "j - Suc i < length xs"
      and f: "filter (\<lambda>e. strstr (cdc_catalog e) p \<noteq> None) (map snd xs) =
        e # filter (\<lambda>e. strstr (cdc_catalog e) p \<noteq> None)
              (map snd (drop (Suc (j - Suc i)) xs))"
      by blast+
    have d: "Suc (j - Suc i) = j - i"
      using le by simp
    have "drop (Suc (j - i)) (x # xs) = drop (Suc (j - Suc i)) xs"
      by (simp add: d)
    then show ?thesis
      using le lt f True by (simp del: not_None_eq drop_Suc_Cons)
  next
    case False
    with Cons.prems show ?thesis by (auto simp del: not_None_eq)
  qed
qed

lemma search_cdc_entry_result:
  assumes "cdc_dbm_ptr s = Some db" and "cdt_dbm_ptr s \<noteq> None"
    and "strlen p < CAT_CAT_LEN"
    and "distinct (map fst (cdc_data s))"
    and "\<forall>x \<in> set (cdc_data s). \<not> catalog_empty (snd x)"
  shows "search_cdc_entry CAT_CAT_LEN s (Some p) (Some first_call) =
    Some (case scan_result (cdc_data s) p (start_index s first_call) of
            (k, e, db') \<Rightarrow>
              (e, Some 0,
               s\<lparr>cdc_dbm_ptr := Some db', local_first_call := 0, local_key_datum := k\<rparr>))"
proof -
  let ?tbl = "cdc_data s"
  let ?i = "start_index s first_call"
  obtain cdt where cdt: "cdt_dbm_ptr s = Some cdt"
    using assms(2) by auto
  have start: "(if local_first_call s \<noteq> 0 \<or> first_call \<noteq> 0 then dbm_firstkey ?tbl db
                else dbm_nextkey ?tbl db) = key_at ?tbl ?i"
    by (simp add: start_index_def dbm_firstkey_def dbm_nextkey_def assms(1) key_at_beyond
        split: option.split)
  have loop: "map_option (\<lambda>(k, d, e, db). (k, e, db))
           (search_loop ?tbl p (fst (key_at ?tbl ?i), None, empty_cdc_entry, snd (key_at ?tbl ?i)))
         = Some (scan_result ?tbl p ?i)"
    using assms(4,5) by (rule search_loop_from)
  then obtain k d e db' where
    l: "search_loop ?tbl p (fst (key_at ?tbl ?i), None, empty_cdc_entry, snd (key_at ?tbl ?i))
          = Some (k, d, e, db')" and r: "scan_result ?tbl p ?i = (k, e, db')"
    by (auto simp: split_beta)
  have s0: "local_first_call s = 0 \<Longrightarrow> s\<lparr>local_first_call := 0\<rparr> = s"
    by simp
  show ?thesis
  proof (cases "local_first_call s \<noteq> 0")
    case True
    then have i: "key_at ?tbl ?i = dbm_firstkey ?tbl db"
      using start by simp
    show ?thesis
      using assms(3) True l r
      by (simp add: search_cdc_entry_def assms(1) cdt i [symmetric] split_beta)
  next
    case lfc: False
    show ?thesis
    proof (cases "first_call \<noteq> 0")
      case True
      then have i: "key_at ?tbl ?i = dbm_firstkey ?tbl db"
        using start by simp
      show ?thesis
        using assms(3) True lfc l r
        by (simp add: search_cdc_entry_def assms(1) cdt i [symmetric] split_beta)
    next
      case False
      then have i: "key_at ?tbl ?i = dbm_nextkey ?tbl db"
        using start lfc by simp
      show ?thesis
        using assms(3) False lfc l r
        by (simp add: search_cdc_entry_def assms(1) cdt i [symmetric] split_beta)
    qed
  qed
qed


lemma search_calls_from:
  assumes "cdc_dbm_ptr s \<noteq> None" and "cdt_dbm_ptr s \<noteq> None"
    and "strlen p < CAT_CAT_LEN"
    and "distinct (map fst (cdc_data s))"
    and "\<forall>x \<in> set (cdc_data s). \<not> catalog_empty (snd x)"
  shows "search_calls
           (Suc (length (filter (\<lambda>e. strstr (cdc_catalog e) p \<noteq> None)
                           (map snd (drop (start_index s first_call) (cdc_data s))))))
           CAT_CAT_LEN s p first_call =
         Some (filter (\<lambda>e. strstr (cdc_catalog e) p \<noteq> None)
                 (map snd (drop (start_index s first_call) (cdc_data s)))
               @ [empty_cdc_entry])"
  using assms
proof (induction "length (cdc_data s) - start_index s first_call" arbitrary: s first_call
    rule: less_induct)
  case less
  let ?tbl = "cdc_data s"
  let ?i = "start_index s first_call"
  let ?M = "\<lambda>e. strstr (cdc_catalog e) p \<noteq> None"
  obtain db where db: "cdc_dbm_ptr s = Some db"
    using less.prems(1) by auto
  note call = search_cdc_entry_result [OF db less.prems(2-5), of first_call]
  show ?case
  proof (cases "first_match p ?i (drop ?i ?tbl)")
    case None
    then have ms: "filter ?M (map snd (drop ?i ?tbl)) = []"
      by (rule first_match_None)
    show ?thesis
      unfolding ms by (simp add: call scan_result_def None)
  next
    case (Some je)
    obtain j e where je: "je = (j, e)"
      by (cases je)
    let ?s1 = "s\<lparr>cdc_dbm_ptr := Some \<lparr>cursor = Some j\<rparr>, local_first_call := 0,
                 local_key_datum := Some (fst (?tbl ! j))\<rparr>"
    have fm: "first_match p ?i (drop ?i ?tbl) = Some (j, e)"
      using Some je by simp
    from first_match_Some [OF fm] have le: "?i \<le> j" and lt: "j - ?i < length (drop ?i ?tbl)"
      and f: "filter ?M (map snd (drop ?i ?tbl)) =
                e # filter ?M (map snd (drop (Suc (j - ?i)) (drop ?i ?tbl)))"
      by blast+
    have dd: "drop (Suc (j - ?i)) (drop ?i ?tbl) = drop (Suc j) ?tbl"
      using le by simp
    have si: "start_index ?s1 0 = Suc j"
      by (simp add: start_index_def)
    have ms: "filter ?M (map snd (drop ?i ?tbl)) =
                e # filter ?M (map snd (drop (start_index ?s1 0) (cdc_data ?s1)))"
      using f by (simp only: dd si) simp
    have dec: "length (cdc_data ?s1) - start_index ?s1 0 < length ?tbl - ?i"
      using le lt by (simp add: si)
    have ih: "search_calls
           (Suc (length (filter ?M (map snd (drop (start_index ?s1 0) (cdc_data ?s1))))))
           CAT_CAT_LEN ?s1 p 0 =
         Some (filter ?M (map snd (drop (start_index ?s1 0) (cdc_data ?s1))) @ [empty_cdc_entry])"
      using less.prems by (intro less.hyps [OF dec]) simp_all
    have c: "search_cdc_entry CAT_CAT_LEN s (Some p) (Some first_call) = Some (e, Some 0, ?s1)"
      by (simp add: call scan_result_def fm)
    have step: "\<And>n. search_calls (Suc n) CAT_CAT_LEN s p first_call =
                      map_option ((#) e) (search_calls n CAT_CAT_LEN ?s1 p 0)"
      by (simp add: c)
    show ?thesis
      unfolding ms length_Cons step ih by simp
  qed
qed


lemma search_calls_sublist:
  assumes "cdc_dbm_ptr s \<noteq> None" and "cdt_dbm_ptr s \<noteq> None"
    and "strlen p < CAT_CAT_LEN"
    and "distinct (map fst (cdc_data s))"
    and "\<forall>x \<in> set (cdc_data s). \<not> catalog_empty (snd x)"
    and "ms = filter (\<lambda>e. sublist (cstr p) (cstr (cdc_catalog e))) (map snd (cdc_data s))"
  shows "search_calls (Suc (length ms)) CAT_CAT_LEN s p 1 = Some (ms @ [empty_cdc_entry])"
proof -
  have ms: "ms = filter (\<lambda>e. strstr (cdc_catalog e) p \<noteq> None)
                   (map snd (drop (start_index s 1) (cdc_data s)))"
    by (simp add: assms(6) start_index_def strstr_iff_sublist del: not_None_eq)
  show ?thesis
    unfolding ms using assms(1-5) by (rule search_calls_from)
qed

lemma holds_AAA:
  "strstr ''AAA1'' ''AAA'' \<noteq> None" "strstr ''AAA2'' ''AAA'' \<noteq> None"
  "strstr ''BBB1'' ''AAA'' = None"
  "sublist ''AAA'' ''AAA1''" "sublist ''AAA'' ''AAA2''" "\<not> sublist ''AAA'' ''BBB1''"
  by (simp_all add: strstr_def cstr_simps sublist_Cons_right)

text \<open>
  The table that holds records with the catalogs \<open>AAA1\<close>, \<open>AAA2\<close> and \<open>BBB1\<close>, in any
  order and with any keys and other members.
\<close>

lemma scan_three_records:
  assumes "cdc_dbm_ptr s \<noteq> None" and "cdt_dbm_ptr s \<noteq> None"
    and "3 < CAT_CAT_LEN"
    and "distinct (map fst (cdc_data s))"
    and "mset (map (\<lambda>x. cdc_catalog (snd x)) (cdc_data s)) = {#''AAA1'', ''AAA2'', ''BBB1''#}"
  shows "search_calls 3 CAT_CAT_LEN s ''AAA'' 1 =
           Some (filter (\<lambda>e. sublist ''AAA'' (cdc_catalog e)) (map snd (cdc_data s))
                 @ [empty_cdc_entry]) \<and>
         mset (map cdc_catalog
                 (filter (\<lambda>e. sublist ''AAA'' (cdc_catalog e)) (map snd (cdc_data s))))
           = {#''AAA1'', ''AAA2''#}"
proof -
  let ?tbl = "cdc_data s"
  let ?M = "\<lambda>e. strstr (cdc_catalog e) ''AAA'' \<noteq> None"
  let ?S = "\<lambda>e. sublist ''AAA'' (cdc_catalog e)"
  have "set (map (\<lambda>x. cdc_catalog (snd x)) ?tbl) = {''AAA1'', ''AAA2'', ''BBB1''}"
    by (simp only: set_mset_mset [symmetric] assms(5)) simp
  then have cat: "cdc_catalog (snd x) \<in> {''AAA1'', ''AAA2'', ''BBB1''}" if "x \<in> set ?tbl" for x
    using that by auto
  have nonempty: "\<forall>x \<in> set ?tbl. \<not> catalog_empty (snd x)"
  proof
    fix x assume "x \<in> set ?tbl"
    from cat [OF this] show "\<not> catalog_empty (snd x)"
      by (auto simp: catalog_empty_def)
  qed
  have MS: "?M e = ?S e" if "e \<in> set (map snd ?tbl)" for e
  proof -
    from that obtain x where "x \<in> set ?tbl" and "e = snd x"
      by auto
    with cat have "cdc_catalog e \<in> {''AAA1'', ''AAA2'', ''BBB1''}"
      by simp
    then show ?thesis
      using holds_AAA by auto
  qed
  have fil: "filter ?M (map snd ?tbl) = filter ?S (map snd ?tbl)"
    by (rule filter_cong [OF refl]) (rule MS)
  have "map cdc_catalog (filter ?S (map snd ?tbl))
          = filter (sublist ''AAA'') (map (\<lambda>x. cdc_catalog (snd x)) ?tbl)"
    by (simp add: filter_map comp_def)
  then have ms: "mset (map cdc_catalog (filter ?S (map snd ?tbl))) = {#''AAA1'', ''AAA2''#}"
    by (simp only: mset_filter assms(5)) (simp add: holds_AAA)
  have "length (filter ?S (map snd ?tbl)) = size {#''AAA1'', ''AAA2''#}"
    by (simp only: ms [symmetric] size_mset length_map)
  then have len: "length (filter ?S (map snd ?tbl)) = 2"
    by simp
  have p: "strlen ''AAA'' < CAT_CAT_LEN"
    using assms(3) by (simp add: strlen_simps)
  have "filter ?S (map snd ?tbl)
          = filter (\<lambda>e. sublist (cstr ''AAA'') (cstr (cdc_catalog e))) (map snd ?tbl)"
    by (simp only: fil [symmetric] strstr_iff_sublist not_not)
  with assms(1,2) p assms(4) nonempty
  have "search_calls (Suc (length (filter ?S (map snd ?tbl)))) CAT_CAT_LEN s ''AAA'' 1 =
        Some (filter ?S (map snd ?tbl) @ [empty_cdc_entry])"
    by (rule search_calls_sublist)
  then have "search_calls 3 CAT_CAT_LEN s ''AAA'' 1 =
        Some (filter ?S (map snd ?tbl) @ [empty_cdc_entry])"
    by (simp only: len) (simp add: numeral_3_eq_3 numeral_2_eq_2)
  with ms show ?thesis by simp
qed

lemma sublist_AAA_XAAAY:
  "sublist ''AAA'' ''XAAAY''" "\<not> prefix ''AAA'' ''XAAAY''" "''AAA'' \<noteq> ''XAAAY''"
  by (simp_all add: sublist_Cons_right)

text \<open>
  C2: with the database open and the catalog table holding records whose catalogs are
  \<open>AAA1\<close>, \<open>AAA2\<close> and \<open>BBB1\<close>, in any order, three calls of \<open>search_cdc_entry\<close>
  with the search string \<open>AAA\<close>, the first with a true \<open>*first_call_ptr\<close>, return the
  records whose catalog contains \<open>AAA\<close> in the order of the table, which are the two with
  the catalogs \<open>AAA1\<close> and \<open>AAA2\<close>, one a call, and then the empty record. The test is
  containment: for every search string shorter than the bound and every table of records
  with a catalog that is not empty, the calls return, one a call and in the order of the
  table, the records whose catalog holds the search string as a run of characters at any
  place, and then the empty record. The bound is a parameter here: the search string has
  to be shorter than it.
\<close>

theorem scan_finds_the_matching_records:
  assumes "cdc_dbm_ptr s \<noteq> None" and "cdt_dbm_ptr s \<noteq> None"
    and "distinct (map fst (cdc_data s))"
  shows "(3 < CAT_CAT_LEN \<and>
          mset (map (\<lambda>x. cdc_catalog (snd x)) (cdc_data s)) = {#''AAA1'', ''AAA2'', ''BBB1''#} \<longrightarrow>
            search_calls 3 CAT_CAT_LEN s ''AAA'' 1 =
              Some (filter (\<lambda>e. sublist ''AAA'' (cdc_catalog e)) (map snd (cdc_data s))
                    @ [empty_cdc_entry]) \<and>
            mset (map cdc_catalog
                    (filter (\<lambda>e. sublist ''AAA'' (cdc_catalog e)) (map snd (cdc_data s))))
              = {#''AAA1'', ''AAA2''#}) \<and>
         (strlen p < CAT_CAT_LEN \<and> (\<forall>x \<in> set (cdc_data s). \<not> catalog_empty (snd x)) \<longrightarrow>
            search_calls
              (Suc (length (filter (\<lambda>e. sublist (cstr p) (cstr (cdc_catalog e)))
                              (map snd (cdc_data s)))))
              CAT_CAT_LEN s p 1 =
              Some (filter (\<lambda>e. sublist (cstr p) (cstr (cdc_catalog e))) (map snd (cdc_data s))
                    @ [empty_cdc_entry]))"
proof (intro conjI impI)
  assume "3 < CAT_CAT_LEN \<and>
          mset (map (\<lambda>x. cdc_catalog (snd x)) (cdc_data s)) = {#''AAA1'', ''AAA2'', ''BBB1''#}"
  then have three: "search_calls 3 CAT_CAT_LEN s ''AAA'' 1 =
           Some (filter (\<lambda>e. sublist ''AAA'' (cdc_catalog e)) (map snd (cdc_data s))
                 @ [empty_cdc_entry]) \<and>
         mset (map cdc_catalog
                 (filter (\<lambda>e. sublist ''AAA'' (cdc_catalog e)) (map snd (cdc_data s))))
           = {#''AAA1'', ''AAA2''#}"
    using assms by (intro scan_three_records) simp_all
  from three show "search_calls 3 CAT_CAT_LEN s ''AAA'' 1 =
           Some (filter (\<lambda>e. sublist ''AAA'' (cdc_catalog e)) (map snd (cdc_data s))
                 @ [empty_cdc_entry])"
    by (rule conjunct1)
  from three show "mset (map cdc_catalog
                 (filter (\<lambda>e. sublist ''AAA'' (cdc_catalog e)) (map snd (cdc_data s))))
           = {#''AAA1'', ''AAA2''#}"
    by (rule conjunct2)
next
  assume a: "strlen p < CAT_CAT_LEN \<and> (\<forall>x \<in> set (cdc_data s). \<not> catalog_empty (snd x))"
  show "search_calls
          (Suc (length (filter (\<lambda>e. sublist (cstr p) (cstr (cdc_catalog e)))
                          (map snd (cdc_data s)))))
          CAT_CAT_LEN s p 1 =
          Some (filter (\<lambda>e. sublist (cstr p) (cstr (cdc_catalog e))) (map snd (cdc_data s))
                @ [empty_cdc_entry])"
    using assms(1,2) conjunct1 [OF a] assms(3) conjunct2 [OF a] refl
    by (rule search_calls_sublist)
qed

theorem scan_finds_the_matching_records_witness:
  "cdc_dbm_ptr
     (opened [(padded 31 ''AAA1'', cd1), (padded 31 ''BBB1'', cd3), (padded 31 ''AAA2'', cd2)] [])
     \<noteq> None \<and>
   cdt_dbm_ptr
     (opened [(padded 31 ''AAA1'', cd1), (padded 31 ''BBB1'', cd3), (padded 31 ''AAA2'', cd2)] [])
     \<noteq> None \<and>
   (3::nat) < 30 \<and>
   distinct (map fst
     [(padded 31 ''AAA1'', cd1), (padded 31 ''BBB1'', cd3), (padded 31 ''AAA2'', cd2)]) \<and>
   search_calls 3 30
     (opened [(padded 31 ''AAA1'', cd1), (padded 31 ''BBB1'', cd3), (padded 31 ''AAA2'', cd2)] [])
     ''AAA'' 1 = Some [cd1, cd2, empty_cdc_entry] \<and>
   distinct (map fst
     [(padded 31 ''XAAAY'', cd4), (padded 31 ''BBB1'', cd3), (padded 31 ''AAA1'', cd1)]) \<and>
   strlen ''AAA'' < 30 \<and>
   \<not> prefix ''AAA'' (cdc_catalog cd4) \<and>
   search_calls 3 30
     (opened [(padded 31 ''XAAAY'', cd4), (padded 31 ''BBB1'', cd3), (padded 31 ''AAA1'', cd1)] [])
     ''AAA'' 1 = Some [cd4, cd1, empty_cdc_entry]"
proof -
  let ?A = "[(padded 31 ''AAA1'', cd1), (padded 31 ''BBB1'', cd3), (padded 31 ''AAA2'', cd2)]"
  let ?B = "[(padded 31 ''XAAAY'', cd4), (padded 31 ''BBB1'', cd3), (padded 31 ''AAA1'', cd1)]"
  have oA: "cdc_dbm_ptr (opened ?A []) \<noteq> None" "cdt_dbm_ptr (opened ?A []) \<noteq> None"
    and oB: "cdc_dbm_ptr (opened ?B []) \<noteq> None" "cdt_dbm_ptr (opened ?B []) \<noteq> None"
    by (simp_all add: opened_simps)
  have dA: "distinct (map fst (cdc_data (opened ?A [])))"
    and dB: "distinct (map fst (cdc_data (opened ?B [])))"
    by (simp_all add: opened_simps padded_def)
  have p: "strlen ''AAA'' < 30"
    by (simp add: strlen_simps)
  have np: "\<not> prefix ''AAA'' (cdc_catalog cd4)"
    by (simp add: cd4_def)
  have A: "search_calls 3 30 (opened ?A []) ''AAA'' 1 = Some [cd1, cd2, empty_cdc_entry]"
    using scan_finds_the_matching_records [OF oA dA, of 30 "''AAA''"]
    by (simp add: opened_simps cd1_def cd2_def cd3_def holds_AAA)
  have B: "search_calls 3 30 (opened ?B []) ''AAA'' 1 = Some [cd4, cd1, empty_cdc_entry]"
    using scan_finds_the_matching_records [OF oB dB, of 30 "''AAA''"] p
    by (simp add: opened_simps cd1_def cd3_def cd4_def catalog_empty_def cstr_simps
        sublist_AAA_XAAAY holds_AAA numeral_3_eq_3)
  show ?thesis
    using oA dA A dB p np B by (simp add: opened_simps)
qed

text \<open>
  C6, as stated: on the first call the function tells the caller, through
  \<open>*first_call_ptr\<close>, that it has started afresh. At process start, a caller that passes 0
  finds 0 on return, as after the next call, which goes on from the last key.
\<close>

theorem first_search_counterexample:
  "local_first_call (opened [(padded 31 ''AAA1'', cd1), (padded 31 ''AAA2'', cd2)] []) = 1 \<and>
   search_cdc_entry 30 (opened [(padded 31 ''AAA1'', cd1), (padded 31 ''AAA2'', cd2)] [])
     (Some ''AAA'') (Some 0)
   = Some (cd1, Some 0,
       (opened [(padded 31 ''AAA1'', cd1), (padded 31 ''AAA2'', cd2)] [])
         \<lparr>cdc_dbm_ptr := Some \<lparr>cursor = Some 0\<rparr>, local_first_call := 0,
          local_key_datum := Some (padded 31 ''AAA1'')\<rparr>) \<and>
   search_cdc_entry 30
     ((opened [(padded 31 ''AAA1'', cd1), (padded 31 ''AAA2'', cd2)] [])
         \<lparr>cdc_dbm_ptr := Some \<lparr>cursor = Some 0\<rparr>, local_first_call := 0,
          local_key_datum := Some (padded 31 ''AAA1'')\<rparr>)
     (Some ''AAA'') (Some 0)
   = Some (cd2, Some 0,
       (opened [(padded 31 ''AAA1'', cd1), (padded 31 ''AAA2'', cd2)] [])
         \<lparr>cdc_dbm_ptr := Some \<lparr>cursor = Some 1\<rparr>, local_first_call := 0,
          local_key_datum := Some (padded 31 ''AAA2'')\<rparr>)"
proof -
  let ?tbl = "[(padded 31 ''AAA1'', cd1), (padded 31 ''AAA2'', cd2)]"
  let ?s = "opened ?tbl []"
  let ?s1 = "?s\<lparr>cdc_dbm_ptr := Some \<lparr>cursor = Some 0\<rparr>, local_first_call := 0,
          local_key_datum := Some (padded 31 ''AAA1'')\<rparr>"
  have p: "strlen ''AAA'' < 30"
    by (simp add: strlen_simps)
  have d: "distinct (map fst (cdc_data ?s))" "distinct (map fst (cdc_data ?s1))"
    by (simp_all add: opened_simps padded_def)
  have n: "\<forall>x \<in> set (cdc_data ?s). \<not> catalog_empty (snd x)"
    "\<forall>x \<in> set (cdc_data ?s1). \<not> catalog_empty (snd x)"
    by (simp_all add: opened_simps catalog_empty_def cd1_def cd2_def)
  have m: "strstr (cdc_catalog cd1) ''AAA'' \<noteq> None" "strstr (cdc_catalog cd2) ''AAA'' \<noteq> None"
    by (simp_all add: cd1_def cd2_def strstr_def cstr_simps)
  have a: "search_cdc_entry 30 ?s (Some ''AAA'') (Some 0) = Some (cd1, Some 0, ?s1)"
    using m
    by (subst search_cdc_entry_result [OF _ _ p d(1) n(1)])
      (simp_all add: opened_simps start_index_def scan_result_def del: not_None_eq)
  have b: "search_cdc_entry 30 ?s1 (Some ''AAA'') (Some 0) =
        Some (cd2, Some 0, ?s\<lparr>cdc_dbm_ptr := Some \<lparr>cursor = Some 1\<rparr>, local_first_call := 0,
          local_key_datum := Some (padded 31 ''AAA2'')\<rparr>)"
    using m
    by (subst search_cdc_entry_result [OF _ _ p d(2) n(2)])
      (simp_all add: opened_simps start_index_def scan_result_def del: not_None_eq)
  show ?thesis
    using a b by (simp add: opened_simps)
qed

text \<open>
  C6, amended: on the first call that passes the tests (\<open>local_first_call\<close> still
  nonzero), whatever \<open>*first_call_ptr\<close> holds, the scan starts at \<^verbatim>\<open>dbm_firstkey\<close>, and
  when the call returns \<open>*first_call_ptr\<close> is 0.
\<close>

theorem first_search_starts_afresh:
  assumes "cdc_dbm_ptr s = Some db" and "cdt_dbm_ptr s \<noteq> None"
    and "strlen p < CAT_CAT_LEN"
    and "local_first_call s \<noteq> 0"
  shows "search_cdc_entry CAT_CAT_LEN s (Some p) (Some first_call) =
           map_option
             (\<lambda>(k, d, e, db').
                (e, Some 0,
                 s\<lparr>local_first_call := 0, cdc_dbm_ptr := Some db', local_key_datum := k\<rparr>))
             (search_loop (cdc_data s) p
                (fst (dbm_firstkey (cdc_data s) db), None, empty_cdc_entry,
                 snd (dbm_firstkey (cdc_data s) db)))"
proof -
  obtain cdt where cdt: "cdt_dbm_ptr s = Some cdt"
    using assms(2) by auto
  show ?thesis
    using assms(3,4)
    by (simp add: search_cdc_entry_def assms(1) cdt split_beta)
qed

theorem first_search_starts_afresh_witness:
  "cdc_dbm_ptr (opened [(padded 31 ''BBB1'', cd3), (padded 31 ''AAA1'', cd1)] [])
     = Some \<lparr>cursor = None\<rparr> \<and>
   cdt_dbm_ptr (opened [(padded 31 ''BBB1'', cd3), (padded 31 ''AAA1'', cd1)] []) \<noteq> None \<and>
   strlen ''AAA'' < 30 \<and>
   local_first_call (opened [(padded 31 ''BBB1'', cd3), (padded 31 ''AAA1'', cd1)] []) \<noteq> 0 \<and>
   search_cdc_entry 30 (opened [(padded 31 ''BBB1'', cd3), (padded 31 ''AAA1'', cd1)] [])
     (Some ''AAA'') (Some 0)
   = Some (cd1, Some 0,
       (opened [(padded 31 ''BBB1'', cd3), (padded 31 ''AAA1'', cd1)] [])
         \<lparr>cdc_dbm_ptr := Some \<lparr>cursor = Some 1\<rparr>, local_first_call := 0,
          local_key_datum := Some (padded 31 ''AAA1'')\<rparr>)"
proof -
  let ?tbl = "[(padded 31 ''BBB1'', cd3), (padded 31 ''AAA1'', cd1)]"
  let ?s = "opened ?tbl []"
  have o: "cdc_dbm_ptr ?s = Some \<lparr>cursor = None\<rparr>" "cdt_dbm_ptr ?s \<noteq> None"
    by (simp_all add: opened_simps)
  have p: "strlen ''AAA'' < 30"
    by (simp add: strlen_simps)
  have f: "local_first_call ?s \<noteq> 0"
    by (simp add: opened_simps)
  have d: "distinct (map fst ?tbl)"
    by (simp add: padded_def)
  have n: "\<forall>x \<in> set ?tbl. \<not> catalog_empty (snd x)"
    by (simp add: catalog_empty_def cd1_def cd3_def)
  have m: "strstr (cdc_catalog cd3) ''AAA'' = None" "strstr (cdc_catalog cd1) ''AAA'' \<noteq> None"
    by (simp_all add: cd1_def cd3_def strstr_def cstr_simps)
  have l: "map_option (\<lambda>(k, d, e, db). (k, e, db))
             (search_loop ?tbl ''AAA''
                (fst (key_at ?tbl 0), None, empty_cdc_entry, snd (key_at ?tbl 0)))
           = Some (scan_result ?tbl ''AAA'' 0)"
    using d n by (rule search_loop_from)
  have r: "scan_result ?tbl ''AAA'' 0 = (Some (padded 31 ''AAA1''), cd1, \<lparr>cursor = Some 1\<rparr>)"
    using m by (simp add: scan_result_def del: not_None_eq)
  from l obtain v where "search_loop ?tbl ''AAA''
                (fst (key_at ?tbl 0), None, empty_cdc_entry, snd (key_at ?tbl 0)) = Some v"
    and "(case v of (k, d, e, db) \<Rightarrow> (k, e, db))
           = (Some (padded 31 ''AAA1''), cd1, \<lparr>cursor = Some 1\<rparr>)"
    unfolding r by auto
  then obtain dd where "search_loop ?tbl ''AAA''
                (fst (key_at ?tbl 0), None, empty_cdc_entry, snd (key_at ?tbl 0))
           = Some (Some (padded 31 ''AAA1''), dd, cd1, \<lparr>cursor = Some 1\<rparr>)"
    by (cases v) auto
  then show ?thesis
    using first_search_starts_afresh [OF o p f, of 0] o p f
    by (simp add: opened_simps dbm_firstkey_def)
qed

end
